theory Spec2Isabelle
  imports Main "HOL-Library.Char_ord" "HOL-Library.List_Lexorder" "HOL-Library.Sublist"
    "HOL-Library.AList"
begin

section \<open>transupdate.py: resource files, checksums and the two Transifex flows\<close>

text \<open>
  The development follows \<^verbatim>\<open>buildSrc/transupdate.py\<close> (Python 2, POSIX paths).
  Python byte strings are \<^typ>\<open>string\<close>; a raised exception is the \<open>Inl\<close> branch of a
  sum. What the script prints is not part of the model.

  Library calls are treated in two ways. The functions of \<^verbatim>\<open>os.path\<close>,
  \<^verbatim>\<open>str.split\<close>, \<^verbatim>\<open>str.rstrip\<close>, the \<^verbatim>\<open>%\<close> operator, \<^verbatim>\<open>fnmatch\<close> and the
  regular expression of \<^verbatim>\<open>_get_english_files\<close> are written out, because the
  properties below depend on what they do to concrete names; the part of each that the script's inputs
  could reach but that is not written out here ends in the error \<open>NotModelled\<close>, so that
  no theorem about a result silently covers it. The MD5 digest, the JSON codec,
  \<^verbatim>\<open>slugify\<close> and the Transifex client are parameters (the records \<open>pylib\<close> and
  \<open>transifex\<close>): every theorem holds for any behaviour of theirs.
\<close>

subsection \<open>Exceptions and exit values\<close>

datatype errno = EEXIST | ENOENT

datatype error =
    TransUpdateError string
  | ValueError string
  | IndexError
  | KeyError
  | TypeError
  | OSError errno
  | IOError
  | ServiceError
  | NotModelled

definition EXIT_OK :: int where "EXIT_OK = 0"
definition EXIT_ERROR :: int where "EXIT_ERROR = 1"
definition EXIT_OK_NOCHANGES :: int where "EXIT_OK_NOCHANGES = 100"

subsection \<open>Strings\<close>

definition slash :: char where "slash = CHR ''/''"
definition dot :: char where "dot = CHR ''.''"
definition newline :: char where "newline = CHR 0x0A"
definition carriage_return :: char where "carriage_return = CHR 0x0D"
definition quote :: char where "quote = CHR 0x27"

text \<open>\<^verbatim>\<open>needle in hay\<close> for two strings: \<open>needle\<close> occurs as a contiguous part.\<close>

fun str_in :: "string \<Rightarrow> string \<Rightarrow> bool" where
  "str_in needle [] = (needle = [])"
| "str_in needle (c # cs) = (prefix needle (c # cs) \<or> str_in needle cs)"

text \<open>\<^verbatim>\<open>s.rstrip(chars)\<close>: drop trailing characters that are in \<open>chars\<close>.\<close>

definition rstrip :: "string \<Rightarrow> string \<Rightarrow> string" where
  "rstrip chars s = rev (dropWhile (\<lambda>c. c \<in> set chars) (rev s))"

text \<open>\<^verbatim>\<open>s.split(sep)\<close> for a one-character separator: never an empty list.\<close>

fun str_split :: "char \<Rightarrow> string \<Rightarrow> string list" where
  "str_split sep [] = [[]]"
| "str_split sep (c # cs) =
     (if c = sep then [] # str_split sep cs
      else (case str_split sep cs of
              [] \<Rightarrow> [[c]]
            | w # ws \<Rightarrow> (c # w) # ws))"

text \<open>
  \<^verbatim>\<open>fmt % arg\<close> with one string argument. \<^verbatim>\<open>%s\<close> takes the argument, \<^verbatim>\<open>%%\<close> is a
  percent sign. Python raises TypeError when the format has no conversion or more than
  one (the argument is not a tuple). Other conversions and flags are not written out.
\<close>

datatype fmt_item = FLit char | FArg

fun fmt_items :: "string \<Rightarrow> error + fmt_item list" where
  "fmt_items [] = Inr []"
| "fmt_items (c # cs) =
     (if c \<noteq> CHR ''%'' then
        (case fmt_items cs of Inl e \<Rightarrow> Inl e | Inr its \<Rightarrow> Inr (FLit c # its))
      else
        (case cs of
           [] \<Rightarrow> Inl (ValueError ''incomplete format'')
         | d # ds \<Rightarrow>
             if d = CHR ''s'' then
               (case fmt_items ds of Inl e \<Rightarrow> Inl e | Inr its \<Rightarrow> Inr (FArg # its))
             else if d = CHR ''%'' then
               (case fmt_items ds of Inl e \<Rightarrow> Inl e | Inr its \<Rightarrow> Inr (FLit d # its))
             else Inl NotModelled))"

fun fmt_fill :: "string \<Rightarrow> fmt_item list \<Rightarrow> string" where
  "fmt_fill arg [] = []"
| "fmt_fill arg (FLit c # its) = c # fmt_fill arg its"
| "fmt_fill arg (FArg # its) = arg @ fmt_fill arg its"

definition py_format :: "string \<Rightarrow> string \<Rightarrow> error + string" where
  "py_format fmt arg =
     (case fmt_items fmt of
        Inl e \<Rightarrow> Inl e
      | Inr its \<Rightarrow>
          if length (filter (\<lambda>it. it = FArg) its) = 1 then Inr (fmt_fill arg its)
          else Inl TypeError)"

text \<open>\<^verbatim>\<open>str(x)\<close> where \<open>x\<close> is a string or \<^verbatim>\<open>None\<close>, as \<^verbatim>\<open>%s\<close> formats it.\<close>

definition py_str :: "string option \<Rightarrow> string" where
  "py_str x = (case x of None \<Rightarrow> ''None'' | Some s \<Rightarrow> s)"

text \<open>Truth value of a string or \<^verbatim>\<open>None\<close>: false for \<^verbatim>\<open>None\<close> and for the empty string.\<close>

definition truthy :: "string option \<Rightarrow> bool" where
  "truthy x = (case x of None \<Rightarrow> False | Some s \<Rightarrow> s \<noteq> [])"

subsection \<open>POSIX paths (\<^verbatim>\<open>os.path\<close>)\<close>

text \<open>\<^verbatim>\<open>s.rfind(c)\<close>: the index of the last occurrence, or \<open>-1\<close>.\<close>

definition rfind :: "char \<Rightarrow> string \<Rightarrow> int" where
  "rfind c s =
     (if c \<in> set s then int (length s) - 1 - int (length (takeWhile (\<lambda>x. x \<noteq> c) (rev s)))
      else - 1)"

definition os_path_split :: "string \<Rightarrow> string \<times> string" where
  "os_path_split p =
     (let i = nat (rfind slash p + 1);
          head = take i p;
          tail = drop i p
      in (if head \<noteq> [] \<and> head \<noteq> replicate (length head) slash
          then rstrip [slash] head else head, tail))"

definition os_path_dirname :: "string \<Rightarrow> string" where
  "os_path_dirname p = fst (os_path_split p)"

definition os_path_basename :: "string \<Rightarrow> string" where
  "os_path_basename p = drop (nat (rfind slash p + 1)) p"

definition os_path_splitext :: "string \<Rightarrow> string \<times> string" where
  "os_path_splitext p =
     (let sepIndex = rfind slash p;
          dotIndex = rfind dot p
      in if dotIndex > sepIndex \<and>
            list_ex (\<lambda>c. c \<noteq> dot)
              (take (nat (dotIndex - (sepIndex + 1))) (drop (nat (sepIndex + 1)) p))
         then (take (nat dotIndex) p, drop (nat dotIndex) p)
         else (p, []))"

definition os_path_join :: "string \<Rightarrow> string \<Rightarrow> string" where
  "os_path_join a b =
     (if prefix [slash] b then b
      else if a = [] \<or> suffix [slash] a then a @ b
      else a @ [slash] @ b)"

subsection \<open>Shell patterns (\<^verbatim>\<open>fnmatch\<close>)\<close>

text \<open>
  \<^verbatim>\<open>fnmatch.fnmatch(name, pat)\<close> on POSIX: \<^verbatim>\<open>*\<close> matches any run of characters,
  \<^verbatim>\<open>?\<close> any one character, every other character itself, and the whole name has to
  match. Bracket expressions are not written out.
\<close>

fun glob_match :: "string \<Rightarrow> string \<Rightarrow> bool" where
  "glob_match [] s = (s = [])"
| "glob_match (p # ps) [] = (p = CHR ''*'' \<and> glob_match ps [])"
| "glob_match (p # ps) (c # cs) =
     (if p = CHR ''*'' then glob_match ps (c # cs) \<or> glob_match (p # ps) cs
      else (p = CHR ''?'' \<or> p = c) \<and> glob_match ps cs)"

definition fnmatch :: "string \<Rightarrow> string \<Rightarrow> error + bool" where
  "fnmatch name pat =
     (if CHR ''['' \<in> set pat then Inl NotModelled else Inr (glob_match pat name))"

subsection \<open>The regular expression of \<^verbatim>\<open>_get_english_files\<close>\<close>

text \<open>
  The script compiles \<^verbatim>\<open>".*" + lang_prefix + "(" + "|".join(lang_exclude) + ")$"\<close> and
  applies \<^verbatim>\<open>match\<close>. The separator and the codes go into the pattern as they are, so a
  dot in them is the regular expression's dot (any character but a newline); pieces with
  any other operator character are not written out. \<^verbatim>\<open>$\<close> holds at the end of the
  string and before a newline that ends it.
\<close>

datatype re_atom = RLit char | RDot

definition re_operators :: string where
  "re_operators = CHR 0x5C # ''^$*+?{}[]()|''"

fun re_atoms :: "string \<Rightarrow> error + re_atom list" where
  "re_atoms [] = Inr []"
| "re_atoms (c # cs) =
     (if c \<in> set re_operators then Inl NotModelled
      else (case re_atoms cs of
              Inl e \<Rightarrow> Inl e
            | Inr as \<Rightarrow> Inr ((if c = dot then RDot else RLit c) # as)))"

fun re_atoms_all :: "string list \<Rightarrow> error + re_atom list list" where
  "re_atoms_all [] = Inr []"
| "re_atoms_all (s # ss) =
     (case re_atoms s of
        Inl e \<Rightarrow> Inl e
      | Inr as \<Rightarrow> (case re_atoms_all ss of Inl e \<Rightarrow> Inl e | Inr rest \<Rightarrow> Inr (as # rest)))"

record foreign_re =
  re_prefix :: "re_atom list"
  re_alternatives :: "re_atom list list"

definition re_compile_foreign :: "string \<Rightarrow> string list \<Rightarrow> error + foreign_re" where
  "re_compile_foreign lang_prefix excluded =
     (case re_atoms lang_prefix of
        Inl e \<Rightarrow> Inl e
      | Inr pre \<Rightarrow>
          (case re_atoms_all excluded of
             Inl e \<Rightarrow> Inl e
           | Inr alts \<Rightarrow> Inr \<lparr>re_prefix = pre, re_alternatives = alts\<rparr>))"

fun atom_matches :: "re_atom \<Rightarrow> char \<Rightarrow> bool" where
  "atom_matches (RLit x) c = (c = x)"
| "atom_matches RDot c = (c \<noteq> newline)"

text \<open>The rest of the subject after the atoms have matched at its start, if they do.\<close>

fun atoms_match :: "re_atom list \<Rightarrow> string \<Rightarrow> string option" where
  "atoms_match [] s = Some s"
| "atoms_match (a # as) [] = None"
| "atoms_match (a # as) (c # cs) = (if atom_matches a c then atoms_match as cs else None)"

definition at_dollar :: "string \<Rightarrow> bool" where
  "at_dollar rest = (rest = [] \<or> rest = [newline])"

definition re_tail_matches :: "foreign_re \<Rightarrow> string \<Rightarrow> bool" where
  "re_tail_matches re s =
     (case atoms_match (re_prefix re) s of
        None \<Rightarrow> False
      | Some r \<Rightarrow>
          list_ex (\<lambda>alt. case atoms_match alt r of None \<Rightarrow> False | Some r' \<Rightarrow> at_dollar r')
            (re_alternatives re))"

text \<open>\<^verbatim>\<open>.*\<close> first: some start position, reached over characters that are no newline.\<close>

fun re_match :: "foreign_re \<Rightarrow> string \<Rightarrow> bool" where
  "re_match re [] = re_tail_matches re []"
| "re_match re (c # cs) = (re_tail_matches re (c # cs) \<or> (c \<noteq> newline \<and> re_match re cs))"

subsection \<open>The file system\<close>

text \<open>
  Files and directories are kept by path, compared as strings: \<open>files\<close> gives the content
  of a regular file, \<open>dirs\<close> the names \<^verbatim>\<open>os.listdir\<close> returns, in the order it returns
  them.
\<close>

record filesys =
  files :: "string \<rightharpoonup> string"
  dirs :: "string \<rightharpoonup> string list"

definition os_listdir :: "filesys \<Rightarrow> string \<Rightarrow> error + string list" where
  "os_listdir fs p = (case dirs fs p of None \<Rightarrow> Inl (OSError ENOENT) | Some names \<Rightarrow> Inr names)"

definition os_path_exists :: "filesys \<Rightarrow> string \<Rightarrow> bool" where
  "os_path_exists fs p = (files fs p \<noteq> None \<or> dirs fs p \<noteq> None)"

definition os_path_isdir :: "filesys \<Rightarrow> string \<Rightarrow> bool" where
  "os_path_isdir fs p = (dirs fs p \<noteq> None)"

definition open_read :: "filesys \<Rightarrow> string \<Rightarrow> error + string" where
  "open_read fs p = (case files fs p of None \<Rightarrow> Inl IOError | Some content \<Rightarrow> Inr content)"

text \<open>
  \<^verbatim>\<open>open(p, "w")\<close> followed by writing \<open>content\<close>: the file is created or replaced. It
  fails on a directory and where the directory of \<open>p\<close> does not exist.
\<close>

definition open_write :: "filesys \<Rightarrow> string \<Rightarrow> string \<Rightarrow> error + filesys" where
  "open_write fs p content =
     (if p = [] \<or> os_path_isdir fs p then Inl IOError
      else if os_path_dirname p \<noteq> [] \<and> \<not> os_path_isdir fs (os_path_dirname p) then Inl IOError
      else Inr (fs\<lparr>files := (files fs)(p \<mapsto> content)\<rparr>))"

subsection \<open>\<^verbatim>\<open>ResourceInfo\<close>\<close>

text \<open>
  A rule is the three-element list of the resource file: the path pattern
  (\<^verbatim>\<open>item[0]\<close>), the language prefix or separator (\<^verbatim>\<open>item[1]\<close>) and the English marker
  or \<^verbatim>\<open>null\<close> (\<^verbatim>\<open>item[2]\<close>). A language is a one-entry dictionary: the Transifex code
  and the native code or \<^verbatim>\<open>null\<close>. The constructor is given the decoded file.
\<close>

type_synonym rule = "string \<times> string \<times> string option"

definition item0 :: "rule \<Rightarrow> string" where "item0 item = fst item"
definition item1 :: "rule \<Rightarrow> string" where "item1 item = fst (snd item)"
definition item2 :: "rule \<Rightarrow> string option" where "item2 item = snd (snd item)"

record resource_spec =
  resources :: "rule list"
  langs :: "(string \<times> string option) list"

record resource_info =
  src_folder :: string
  res_spec :: resource_spec
  lang_exclude :: "string list"

definition ResourceInfo_init :: "string \<Rightarrow> resource_spec \<Rightarrow> resource_info" where
  "ResourceInfo_init folder spec =
     \<lparr>src_folder = folder, res_spec = spec,
      lang_exclude = ''pig_latin'' # map fst (langs spec)\<rparr>"

text \<open>The loop of \<^verbatim>\<open>_get_english_files\<close> over the directory listing.\<close>

fun english_files_loop ::
  "foreign_re \<Rightarrow> string \<Rightarrow> string \<Rightarrow> string list \<Rightarrow> string list \<Rightarrow> error + string list"
where
  "english_files_loop re path filespec [] english_files = Inr english_files"
| "english_files_loop re path filespec (filename # rest) english_files =
     (case fnmatch filename filespec of
        Inl e \<Rightarrow> Inl e
      | Inr m \<Rightarrow>
          if m \<and> \<not> re_match re (fst (os_path_splitext filename))
          then english_files_loop re path filespec rest
                 (english_files @ [os_path_join path filename])
          else english_files_loop re path filespec rest english_files)"

definition get_english_files ::
  "filesys \<Rightarrow> resource_info \<Rightarrow> string \<Rightarrow> string \<Rightarrow> error + string list"
where
  "get_english_files fs ri full_filespec lang_prefix =
     (case re_compile_foreign lang_prefix (lang_exclude ri) of
        Inl e \<Rightarrow> Inl e
      | Inr foreign_lang \<Rightarrow>
          (case os_path_split full_filespec of
             (path, filespec) \<Rightarrow>
               (case os_listdir fs path of
                  Inl e \<Rightarrow> Inl e
                | Inr names \<Rightarrow> english_files_loop foreign_lang path filespec names [])))"

type_synonym file_lists = "string list \<times> string list \<times> string list"

definition native_lang :: "string \<times> string option \<Rightarrow> string" where
  "native_lang lang = (if truthy (snd lang) then the (snd lang) else fst lang)"

text \<open>Line 78: the test that sends a rule to the \<^verbatim>\<open>%s\<close> branch.\<close>

definition is_templated :: "rule \<Rightarrow> bool" where
  "is_templated item = str_in ''%s'' (fst (os_path_split (item0 item)))"

text \<open>Lines 85 to 91: one entry in each list for every language.\<close>

fun templated_langs_loop ::
  "string \<Rightarrow> rule \<Rightarrow> (string \<times> string option) list \<Rightarrow> file_lists \<Rightarrow> error + file_lists"
where
  "templated_langs_loop folder item [] acc = Inr acc"
| "templated_langs_loop folder item (lang # rest) (file_list, tx_res_list, tx_lang_list) =
     (case py_format (item0 item) (item1 item @ native_lang lang) of
        Inl e \<Rightarrow> Inl e
      | Inr p \<Rightarrow>
          templated_langs_loop folder item rest
            (file_list @ [os_path_join folder p],
             tx_res_list @ [snd (os_path_split (item0 item))],
             tx_lang_list @ [fst lang]))"

text \<open>Lines 108 to 113: the translated name of one English file.\<close>

definition lang_file :: "rule \<Rightarrow> string \<Rightarrow> string \<Rightarrow> string" where
  "lang_file item native english_file =
     (case os_path_split english_file of
        (path, filename) \<Rightarrow>
          (case os_path_splitext filename of
             (filename_only, ext) \<Rightarrow>
               if truthy (item2 item)
               then os_path_join path
                      (take (length filename_only - length (the (item2 item))) filename_only
                       @ native @ ext)
               else os_path_join path (filename_only @ item1 item @ native @ ext)))"

fun wildcard_files_loop ::
  "rule \<Rightarrow> string \<times> string option \<Rightarrow> string list \<Rightarrow> file_lists \<Rightarrow> file_lists"
where
  "wildcard_files_loop item lang [] acc = acc"
| "wildcard_files_loop item lang (english_file # rest) (file_list, tx_res_list, tx_lang_list) =
     wildcard_files_loop item lang rest
       (file_list @ [lang_file item (native_lang lang) english_file],
        tx_res_list @ [snd (os_path_split english_file)],
        tx_lang_list @ [fst lang])"

fun wildcard_langs_loop ::
  "rule \<Rightarrow> (string \<times> string option) list \<Rightarrow> string list \<Rightarrow> file_lists \<Rightarrow> file_lists"
where
  "wildcard_langs_loop item [] english_files acc = acc"
| "wildcard_langs_loop item (lang # rest) english_files acc =
     wildcard_langs_loop item rest english_files
       (wildcard_files_loop item lang english_files acc)"

text \<open>Lines 94 to 98: the file pattern of the English files of a wildcard rule.\<close>

definition full_filespec :: "string \<Rightarrow> rule \<Rightarrow> string" where
  "full_filespec folder item =
     (case os_path_split (item0 item) of
        (path, filename) \<Rightarrow>
          (case os_path_splitext filename of
             (filename_only, ext) \<Rightarrow>
               os_path_join folder
                 (os_path_join path
                    (if truthy (item2 item)
                     then filename_only @ item1 item @ the (item2 item) @ ext
                     else filename_only @ ext))))"

text \<open>The body of the loop of \<^verbatim>\<open>get\<close> for one rule.\<close>

definition get_item ::
  "filesys \<Rightarrow> resource_info \<Rightarrow> bool \<Rightarrow> file_lists \<Rightarrow> rule \<Rightarrow> error + file_lists"
where
  "get_item fs ri english_mode acc item =
     (case acc of
        (file_list, tx_res_list, tx_lang_list) \<Rightarrow>
          if is_templated item then
            (if english_mode then
               (case py_format (item0 item) (py_str (item2 item)) of
                  Inl e \<Rightarrow> Inl e
                | Inr p \<Rightarrow>
                    Inr (file_list @ [os_path_join (src_folder ri) p], tx_res_list, tx_lang_list))
             else templated_langs_loop (src_folder ri) item (langs (res_spec ri)) acc)
          else
            (case get_english_files fs ri (full_filespec (src_folder ri) item) (item1 item) of
               Inl e \<Rightarrow> Inl e
             | Inr english_files \<Rightarrow>
                 if english_mode then Inr (file_list @ english_files, tx_res_list, tx_lang_list)
                 else Inr (wildcard_langs_loop item (langs (res_spec ri)) english_files acc)))"

fun get_loop ::
  "filesys \<Rightarrow> resource_info \<Rightarrow> bool \<Rightarrow> rule list \<Rightarrow> file_lists \<Rightarrow> error + file_lists"
where
  "get_loop fs ri english_mode [] acc = Inr acc"
| "get_loop fs ri english_mode (item # rest) acc =
     (case get_item fs ri english_mode acc item of
        Inl e \<Rightarrow> Inl e
      | Inr acc' \<Rightarrow> get_loop fs ri english_mode rest acc')"

definition get :: "filesys \<Rightarrow> resource_info \<Rightarrow> bool \<Rightarrow> error + file_lists" where
  "get fs ri english_mode = get_loop fs ri english_mode (resources (res_spec ri)) ([], [], [])"

subsection \<open>Library and service parameters\<close>

text \<open>
  A decoded JSON document. \<^verbatim>\<open>json.load\<close> raises on text that is no JSON; what it
  returns for a snapshot file need not be a dictionary.
\<close>

datatype pyval =
    JNull
  | JBool bool
  | JNum string
  | JStr string
  | JList "pyval list"
  | JDict "(string \<times> pyval) list"

text \<open>
  \<open>json_dump\<close> is \<^verbatim>\<open>json.dump(d, fp, sort_keys=True)\<close> for a dictionary from strings
  to strings: it is given the entries in the order of their keys.
\<close>

record pylib =
  md5_hexdigest :: "string \<Rightarrow> string"
  json_load :: "string \<Rightarrow> error + pyval"
  json_dump :: "(string \<times> string) list \<Rightarrow> error + string"
  slugify :: "string \<Rightarrow> string"

record stats =
  translated_words :: int
  untranslated_words :: int
  translated_entities :: int
  untranslated_entities :: int
  completed :: string
  last_commiter :: string
  last_update :: string

text \<open>
  The Transifex client over a state \<open>'r\<close> of the service. The two uploads read the file
  themselves; \<open>get_translation\<close> gives the text that the client then writes to the
  target file.
\<close>

record 'r transifex =
  project_exists :: "'r \<Rightarrow> string \<Rightarrow> error + bool"
  list_resources :: "'r \<Rightarrow> string \<Rightarrow> error + string list"
  update_source_translation :: "'r \<Rightarrow> filesys \<Rightarrow> string \<Rightarrow> string \<Rightarrow> string \<Rightarrow> error + 'r"
  new_resource :: "'r \<Rightarrow> filesys \<Rightarrow> string \<Rightarrow> string \<Rightarrow> string \<Rightarrow> string \<Rightarrow> error + 'r"
  get_translation :: "'r \<Rightarrow> string \<Rightarrow> string \<Rightarrow> string \<Rightarrow> error + string"
  get_statistics :: "'r \<Rightarrow> string \<Rightarrow> string \<Rightarrow> string \<Rightarrow> error + stats"

subsection \<open>\<^verbatim>\<open>create_path\<close>\<close>

text \<open>
  \<^verbatim>\<open>os.makedirs\<close> fails with \<^verbatim>\<open>EEXIST\<close> when the path exists. The directories it
  makes on the way are not recorded: only the leaf becomes a directory of the model.
\<close>

definition os_makedirs :: "filesys \<Rightarrow> string \<Rightarrow> error + filesys" where
  "os_makedirs fs p =
     (if p = [] then Inl (OSError ENOENT)
      else if os_path_exists fs p then Inl (OSError EEXIST)
      else Inr (fs\<lparr>dirs := (dirs fs)(p \<mapsto> [])\<rparr>))"

definition create_path :: "filesys \<Rightarrow> string \<Rightarrow> error + filesys" where
  "create_path fs path =
     (case os_makedirs fs path of
        Inr fs' \<Rightarrow> Inr fs'
      | Inl (OSError e) \<Rightarrow>
          if e = EEXIST \<and> os_path_isdir fs path then Inr fs
          else Inl (ValueError (''ERROR: creating folder '' @ path))
      | Inl other \<Rightarrow> Inl other)"

subsection \<open>\<^verbatim>\<open>TransUpdate\<close>\<close>

record trans_update =
  reponame :: string
  noprojprefix :: bool
  clonepath :: string
  res_info :: resource_info

definition TransUpdate_init ::
  "string \<Rightarrow> bool \<Rightarrow> string \<Rightarrow> resource_spec \<Rightarrow> trans_update"
where
  "TransUpdate_init name noprefix path spec =
     \<lparr>reponame = name, noprojprefix = noprefix, clonepath = path,
      res_info = ResourceInfo_init path spec\<rparr>"

definition transifex_i18n_type :: "(string \<times> string) list" where
  "transifex_i18n_type =
     [(''po'', ''PO''),
      (''properties'', ''UNICODEPROPERTIES''),
      (''html'', ''HTML''),
      (''strings'', ''STRINGS''),
      (''xml'', ''ANDROID''),
      (''json'', ''CHROME''),
      (''ts'', ''QT'')]"

definition TRANSIFEX_PROJ_PREFIX :: string where
  "TRANSIFEX_PROJ_PREFIX = ''onshape-''"

definition get_i18n_type :: "string \<Rightarrow> error + string" where
  "get_i18n_type full_filename =
     (let parts = str_split dot (snd (os_path_splitext full_filename))
      in if length parts < 2 then Inl IndexError
         else (case map_of transifex_i18n_type (parts ! 1) of
                 Some t \<Rightarrow> Inr t
               | None \<Rightarrow>
                   Inl (TransUpdateError
                     (''ERROR: unrecognised extension in filename: '' @ [quote] @ full_filename
                      @ [quote]))))"

definition get_proj_slug ::
  "pylib \<Rightarrow> 'r transifex \<Rightarrow> trans_update \<Rightarrow> 'r \<Rightarrow> error + string"
where
  "get_proj_slug lib api tu remote =
     (let proj_name =
            (if noprojprefix tu then reponame tu else TRANSIFEX_PROJ_PREFIX @ reponame tu);
          project_slug = slugify lib proj_name
      in case project_exists api remote project_slug of
           Inl e \<Rightarrow> Inl e
         | Inr b \<Rightarrow>
             if \<not> b then
               Inl (TransUpdateError
                 (''ERROR: project does not exist: '' @ [quote] @ project_slug @ [quote]))
             else Inr project_slug)"

subsection \<open>Hashes and the checksum file\<close>

text \<open>
  Lines 245 to 248: the bytes handed to the digest, read \<open>n\<close> at a time until a read
  returns nothing.
\<close>

function md5_read_loop :: "nat \<Rightarrow> string \<Rightarrow> string \<Rightarrow> string" where
  "md5_read_loop n fed rest =
     (if take n rest = [] then fed else md5_read_loop n (fed @ take n rest) (drop n rest))"
  by pat_completeness auto
termination
  by (relation "measure (\<lambda>(n, fed, rest). length rest)") auto

definition compute_file_hash ::
  "pylib \<Rightarrow> filesys \<Rightarrow> string \<Rightarrow> nat \<Rightarrow> error + string"
where
  "compute_file_hash lib fs filename nBufferSize =
     (if \<not> os_path_exists fs filename then
        Inl (TransUpdateError
          (''ERROR: file does not exist: '' @ [quote] @ filename @ [quote]))
      else (case open_read fs filename of
              Inl e \<Rightarrow> Inl e
            | Inr content \<Rightarrow> Inr (md5_hexdigest lib (md5_read_loop nBufferSize [] content))))"

text \<open>
  A dictionary from paths to digests is a list of entries with one entry for a key;
  storing under a key that is there replaces its value.
\<close>

fun compute_hashinfo_loop ::
  "pylib \<Rightarrow> filesys \<Rightarrow> string \<Rightarrow> string list \<Rightarrow> (string \<times> string) list
   \<Rightarrow> error + (string \<times> string) list"
where
  "compute_hashinfo_loop lib fs download_path [] hashinfo = Inr hashinfo"
| "compute_hashinfo_loop lib fs download_path (file # rest) hashinfo =
     (case compute_file_hash lib fs file 8192 of
        Inl e \<Rightarrow> Inl e
      | Inr h \<Rightarrow>
          compute_hashinfo_loop lib fs download_path rest
            (AList.update (drop (length download_path + 1) file) h hashinfo))"

definition compute_current_hashinfo ::
  "pylib \<Rightarrow> filesys \<Rightarrow> string \<Rightarrow> string list \<Rightarrow> error + (string \<times> string) list"
where
  "compute_current_hashinfo lib fs download_path file_list =
     compute_hashinfo_loop lib fs download_path file_list []"

definition get_hash_filename :: "string \<Rightarrow> string \<Rightarrow> string \<Rightarrow> string \<Rightarrow> string" where
  "get_hash_filename cksum_folder git_branch repo_name sfx =
     (let underscore_suffix = (if sfx \<noteq> [] then ''_'' @ sfx else sfx)
      in os_path_join cksum_folder
           (git_branch @ ''_'' @ repo_name @ underscore_suffix @ ''.json''))"

text \<open>The body of the \<^verbatim>\<open>try\<close> of \<^verbatim>\<open>_read_previous_hashinfo\<close>, then the function.\<close>

definition load_hashinfo :: "pylib \<Rightarrow> filesys \<Rightarrow> string \<Rightarrow> error + pyval" where
  "load_hashinfo lib fs hash_filename =
     (case open_read fs hash_filename of
        Inl e \<Rightarrow> Inl e
      | Inr content \<Rightarrow> json_load lib content)"

definition read_previous_hashinfo ::
  "pylib \<Rightarrow> filesys \<Rightarrow> trans_update \<Rightarrow> string \<Rightarrow> string \<Rightarrow> string \<Rightarrow> pyval"
where
  "read_previous_hashinfo lib fs tu cksum_folder git_branch sfx =
     (case load_hashinfo lib fs (get_hash_filename cksum_folder git_branch (reponame tu) sfx) of
        Inl e \<Rightarrow> JDict []
      | Inr hashinfo \<Rightarrow> hashinfo)"

text \<open>\<^verbatim>\<open>item in v\<close> and \<^verbatim>\<open>v[item]\<close> for a string \<open>item\<close> and a decoded document \<open>v\<close>.\<close>

fun py_contains :: "pyval \<Rightarrow> string \<Rightarrow> error + bool" where
  "py_contains (JDict kvs) item = Inr (map_of kvs item \<noteq> None)"
| "py_contains (JList vs) item = Inr (JStr item \<in> set vs)"
| "py_contains (JStr s) item = Inr (str_in item s)"
| "py_contains v item = Inl TypeError"

fun py_getitem :: "pyval \<Rightarrow> string \<Rightarrow> error + pyval" where
  "py_getitem (JDict kvs) item = (case map_of kvs item of None \<Rightarrow> Inl KeyError | Some v \<Rightarrow> Inr v)"
| "py_getitem v item = Inl TypeError"

fun changed_items_loop ::
  "pyval \<Rightarrow> (string \<times> string) list \<Rightarrow> string list \<Rightarrow> error + string list"
where
  "changed_items_loop previous_hashinfo [] changed_items = Inr changed_items"
| "changed_items_loop previous_hashinfo ((item, hash) # rest) changed_items =
     (case py_contains previous_hashinfo item of
        Inl e \<Rightarrow> Inl e
      | Inr True \<Rightarrow>
          (case py_getitem previous_hashinfo item of
             Inl e \<Rightarrow> Inl e
           | Inr v \<Rightarrow>
               if JStr hash \<noteq> v
               then changed_items_loop previous_hashinfo rest (changed_items @ [item])
               else changed_items_loop previous_hashinfo rest changed_items)
      | Inr False \<Rightarrow> changed_items_loop previous_hashinfo rest (changed_items @ [item]))"

definition get_changed_and_new_resources ::
  "pylib \<Rightarrow> filesys \<Rightarrow> trans_update \<Rightarrow> string \<Rightarrow> string \<Rightarrow> string \<Rightarrow> string list \<Rightarrow> string
   \<Rightarrow> error + string list"
where
  "get_changed_and_new_resources lib fs tu cksum_folder git_branch download_path file_list sfx =
     (if cksum_folder \<noteq> [] then
        (case compute_current_hashinfo lib fs download_path file_list of
           Inl e \<Rightarrow> Inl e
         | Inr latest_hashinfo \<Rightarrow>
             (case changed_items_loop
                     (read_previous_hashinfo lib fs tu cksum_folder git_branch sfx)
                     latest_hashinfo [] of
                Inl e \<Rightarrow> Inl e
              | Inr changed_items \<Rightarrow> Inr (sort changed_items)))
      else Inr [])"

definition write_cksumfile ::
  "pylib \<Rightarrow> filesys \<Rightarrow> trans_update \<Rightarrow> string \<Rightarrow> string \<Rightarrow> string \<Rightarrow> string \<Rightarrow> bool
   \<Rightarrow> error + filesys \<times> int"
where
  "write_cksumfile lib fs tu cksum_folder git_branch download_path cksum_file_suffix english_mode =
     (case get fs (res_info tu) english_mode of
        Inl e \<Rightarrow> Inl e
      | Inr (file_list, tx_res_list, tx_lang_list) \<Rightarrow>
          (case compute_current_hashinfo lib fs download_path file_list of
             Inl e \<Rightarrow> Inl e
           | Inr latest_hashinfo \<Rightarrow>
               (case json_dump lib (sort_key fst latest_hashinfo) of
                  Inl e \<Rightarrow> Inl e
                | Inr text \<Rightarrow>
                    (case open_write fs
                            (get_hash_filename cksum_folder git_branch (reponame tu)
                               cksum_file_suffix)
                            text of
                       Inl e \<Rightarrow> Inl e
                     | Inr fs' \<Rightarrow> Inr (fs', EXIT_OK)))))"

subsection \<open>The push flow\<close>

text \<open>
  The lines of a text file without their line ends, as the loop \<^verbatim>\<open>for line in f\<close>
  followed by \<^verbatim>\<open>line.rstrip("\n\r")\<close> sees them.
\<close>

definition file_lines :: "string \<Rightarrow> string list" where
  "file_lines content =
     (let pieces = str_split newline content
      in map (rstrip [newline, carriage_return])
           (if last pieces = [] then butlast pieces else pieces))"

text \<open>
  The two filters return the list of files to upload; the message that the script
  prints with it is left out.
\<close>

definition get_filtered_upload_list ::
  "filesys \<Rightarrow> trans_update \<Rightarrow> string \<Rightarrow> error + string list"
where
  "get_filtered_upload_list fs tu filelist =
     (case get fs (res_info tu) True of
        Inl e \<Rightarrow> Inl e
      | Inr (all_res_files, tx_res_list, tx_lang_list) \<Rightarrow>
          if filelist = ''all'' then Inr all_res_files
          else (case open_read fs filelist of
                  Inl e \<Rightarrow> Inl e
                | Inr content \<Rightarrow>
                    Inr (filter (\<lambda>test_file. test_file \<in> set all_res_files)
                          (map (os_path_join (clonepath tu)) (file_lines content)))))"

definition get_filtered_upload_list_by_cksum_compare ::
  "pylib \<Rightarrow> filesys \<Rightarrow> trans_update \<Rightarrow> string \<Rightarrow> string \<Rightarrow> string \<Rightarrow> string
   \<Rightarrow> error + string list"
where
  "get_filtered_upload_list_by_cksum_compare lib fs tu cksum_folder git_branch download_path
       cksum_file_suffix =
     (case get fs (res_info tu) True of
        Inl e \<Rightarrow> Inl e
      | Inr (file_list, tx_res_list, tx_lang_list) \<Rightarrow>
          (case get_changed_and_new_resources lib fs tu cksum_folder git_branch download_path
                  file_list cksum_file_suffix of
             Inl e \<Rightarrow> Inl e
           | Inr changed_files \<Rightarrow> Inr (map (os_path_join download_path) changed_files)))"

text \<open>Lines 220 to 229: one upload for every file, an update or a new resource.\<close>

fun upload_loop ::
  "'r transifex \<Rightarrow> filesys \<Rightarrow> string \<Rightarrow> string list \<Rightarrow> string list \<Rightarrow> 'r \<Rightarrow> error + 'r"
where
  "upload_loop api fs project_slug curr_res_names [] remote = Inr remote"
| "upload_loop api fs project_slug curr_res_names (res_file # rest) remote =
     (case get_i18n_type res_file of
        Inl e \<Rightarrow> Inl e
      | Inr i18n_type \<Rightarrow>
          (case (if os_path_basename res_file \<in> set curr_res_names
                 then update_source_translation api remote fs project_slug res_file i18n_type
                 else new_resource api remote fs project_slug res_file
                        (os_path_basename res_file) i18n_type) of
             Inl e \<Rightarrow> Inl e
           | Inr remote' \<Rightarrow> upload_loop api fs project_slug curr_res_names rest remote'))"

definition upload_source_files ::
  "pylib \<Rightarrow> 'r transifex \<Rightarrow> trans_update \<Rightarrow> filesys \<Rightarrow> 'r \<Rightarrow> string \<Rightarrow> bool \<Rightarrow> string
   \<Rightarrow> string \<Rightarrow> string \<Rightarrow> error + filesys \<times> 'r \<times> int"
where
  "upload_source_files lib api tu fs remote filelist filehash cksum_folder git_branch
       download_path =
     (case get_proj_slug lib api tu remote of
        Inl e \<Rightarrow> Inl e
      | Inr project_slug \<Rightarrow>
          (case list_resources api remote project_slug of
             Inl e \<Rightarrow> Inl e
           | Inr curr_res_names \<Rightarrow>
               (case (if filehash
                      then get_filtered_upload_list_by_cksum_compare lib fs tu cksum_folder
                             git_branch download_path ''english''
                      else get_filtered_upload_list fs tu filelist) of
                  Inl e \<Rightarrow> Inl e
                | Inr res_files \<Rightarrow>
                    (case upload_loop api fs project_slug curr_res_names res_files remote of
                       Inl e \<Rightarrow> Inl e
                     | Inr remote' \<Rightarrow>
                         if filehash \<and> length res_files > 0 then
                           (case write_cksumfile lib fs tu cksum_folder git_branch download_path
                                   ''english'' True of
                              Inl e \<Rightarrow> Inl e
                            | Inr (fs', ok) \<Rightarrow> Inr (fs', remote', EXIT_OK))
                         else Inr (fs, remote', EXIT_OK)))))"

subsection \<open>The pull flow\<close>

text \<open>
  Lines 255 to 262, for the file with index \<open>i\<close> and those after it: the directory of
  the file is made, the translation is fetched into the file, and its statistics are
  stored under the path relative to the download folder.
\<close>

fun download_loop ::
  "pylib \<Rightarrow> 'r transifex \<Rightarrow> 'r \<Rightarrow> string \<Rightarrow> string \<Rightarrow> string list \<Rightarrow> string list \<Rightarrow> nat
   \<Rightarrow> string list \<Rightarrow> filesys \<Rightarrow> (string \<times> stats) list
   \<Rightarrow> error + filesys \<times> (string \<times> stats) list"
where
  "download_loop lib api remote project_slug download_path tx_res_list tx_lang_list i []
       fs stats_all = Inr (fs, stats_all)"
| "download_loop lib api remote project_slug download_path tx_res_list tx_lang_list i
       (file # rest) fs stats_all =
     (if length tx_lang_list \<le> i \<or> length tx_res_list \<le> i then Inl IndexError
      else
        (case create_path fs (os_path_dirname file) of
           Inl e \<Rightarrow> Inl e
         | Inr fs1 \<Rightarrow>
             (case get_translation api remote project_slug
                     (slugify lib (tx_res_list ! i)) (tx_lang_list ! i) of
                Inl e \<Rightarrow> Inl e
              | Inr text \<Rightarrow>
                  (case open_write fs1 file text of
                     Inl e \<Rightarrow> Inl e
                   | Inr fs2 \<Rightarrow>
                       (case get_statistics api remote project_slug
                               (slugify lib (tx_res_list ! i)) (tx_lang_list ! i) of
                          Inl e \<Rightarrow> Inl e
                        | Inr st \<Rightarrow>
                            download_loop lib api remote project_slug download_path
                              tx_res_list tx_lang_list (Suc i) rest fs2
                              (AList.update (drop (length download_path + 1) file) st
                                 stats_all))))))"

definition download_from_transifex ::
  "pylib \<Rightarrow> 'r transifex \<Rightarrow> trans_update \<Rightarrow> filesys \<Rightarrow> 'r \<Rightarrow> string \<Rightarrow> string list
   \<Rightarrow> string list \<Rightarrow> string list \<Rightarrow> error + filesys \<times> (string \<times> stats) list"
where
  "download_from_transifex lib api tu fs remote download_path file_list tx_res_list
       tx_lang_list =
     (case get_proj_slug lib api tu remote of
        Inl e \<Rightarrow> Inl e
      | Inr project_slug \<Rightarrow>
          download_loop lib api remote project_slug download_path tx_res_list tx_lang_list 0
            file_list fs [])"

definition write_download_list_file ::
  "filesys \<Rightarrow> string option \<Rightarrow> string \<Rightarrow> string list \<Rightarrow> error + filesys"
where
  "write_download_list_file fs download_list_file download_path file_list =
     (if truthy download_list_file then
        open_write fs (the download_list_file)
          (concat (map (\<lambda>file. drop (length download_path + 1) file @ [newline]) file_list))
      else Inr fs)"

text \<open>Lines 314 to 319: every file of the list has its statistics.\<close>

fun display_loop :: "(string \<times> stats) list \<Rightarrow> string \<Rightarrow> string list \<Rightarrow> error + unit" where
  "display_loop stats_all download_path [] = Inr ()"
| "display_loop stats_all download_path (file # rest) =
     (case map_of stats_all (drop (length download_path + 1) file) of
        None \<Rightarrow>
          Inl (TransUpdateError
            (''ERROR: no stats for '' @ drop (length download_path + 1) file))
      | Some st \<Rightarrow> display_loop stats_all download_path rest)"

definition display_results ::
  "pylib \<Rightarrow> filesys \<Rightarrow> trans_update \<Rightarrow> (string \<times> stats) list \<Rightarrow> string \<Rightarrow> string \<Rightarrow> string
   \<Rightarrow> string list \<Rightarrow> error + nat"
where
  "display_results lib fs tu stats_all cksum_folder git_branch download_path file_list =
     (case get_changed_and_new_resources lib fs tu cksum_folder git_branch download_path
             file_list [] of
        Inl e \<Rightarrow> Inl e
      | Inr changed \<Rightarrow>
          (case display_loop stats_all download_path file_list of
             Inl e \<Rightarrow> Inl e
           | Inr u \<Rightarrow> Inr (length changed)))"

definition process_translated_files ::
  "pylib \<Rightarrow> 'r transifex \<Rightarrow> trans_update \<Rightarrow> filesys \<Rightarrow> 'r \<Rightarrow> string \<Rightarrow> string \<Rightarrow> string
   \<Rightarrow> string option \<Rightarrow> error + filesys \<times> int"
where
  "process_translated_files lib api tu fs remote cksum_folder git_branch download_path
       download_list_file =
     (case get fs (res_info tu) False of
        Inl e \<Rightarrow> Inl e
      | Inr (file_list, tx_res_list, tx_lang_list) \<Rightarrow>
          (case download_from_transifex lib api tu fs remote download_path file_list
                  tx_res_list tx_lang_list of
             Inl e \<Rightarrow> Inl e
           | Inr (fs1, stats) \<Rightarrow>
               (case write_download_list_file fs1 download_list_file download_path file_list of
                  Inl e \<Rightarrow> Inl e
                | Inr fs2 \<Rightarrow>
                    (case display_results lib fs2 tu stats cksum_folder git_branch
                            download_path file_list of
                       Inl e \<Rightarrow> Inl e
                     | Inr num_changed \<Rightarrow>
                         Inr (fs2, if num_changed \<noteq> 0 then EXIT_OK else EXIT_OK_NOCHANGES)))))"

subsection \<open>Inputs of the examples\<close>

text \<open>
  The scenario of the specification: one wildcard rule \<^verbatim>\<open>proj/*.po\<close> with separator
  \<^verbatim>\<open>_\<close> and no English marker, the language list \<^verbatim>\<open>[{"fr": null}]\<close>, and a
  directory that holds \<^verbatim>\<open>a.po\<close> and \<^verbatim>\<open>a_fr.po\<close>.
\<close>

definition scenario_spec :: resource_spec where
  "scenario_spec = \<lparr>resources = [(''proj/*.po'', ''_'', None)], langs = [(''fr'', None)]\<rparr>"

definition scenario_fs :: "string \<Rightarrow> string list \<Rightarrow> filesys" where
  "scenario_fs d names = \<lparr>files = Map.empty, dirs = [d \<mapsto> names]\<rparr>"

text \<open>
  Stand-ins for the library in the examples. \<open>demo_md5\<close> agrees with MD5 on the three
  contents that the examples hash. \<open>flat_json_dump\<close> writes a dictionary of strings the
  way \<^verbatim>\<open>json.dump\<close> does when no character needs an escape, and \<open>flat_json_load\<close>
  decodes such a text and rejects every other text.
\<close>

definition demo_md5 :: "string \<Rightarrow> string" where
  "demo_md5 content =
     (if content = ''hello'' then ''5d41402abc4b2a76b9719d911017c592''
      else if content = ''bonjour'' then ''f02368945726d5fc2a14eb576f7276c0''
      else if content = ''hello world'' then ''5eb63bbbe01eeed093cb22bb8f5acdc3''
      else ''d41d8cd98f00b204e9800998ecf8427e'')"

definition dquote :: char where "dquote = CHR 0x22"

definition json_plain :: "string \<Rightarrow> bool" where
  "json_plain s =
     list_all (\<lambda>c. c \<noteq> dquote \<and> c \<noteq> CHR 0x5C \<and> CHR 0x20 \<le> c \<and> c \<le> CHR 0x7E) s"

fun flat_json_members :: "(string \<times> string) list \<Rightarrow> string" where
  "flat_json_members [] = []"
| "flat_json_members [(k, v)] = [dquote] @ k @ [dquote] @ '': '' @ [dquote] @ v @ [dquote]"
| "flat_json_members ((k, v) # kvs) =
     [dquote] @ k @ [dquote] @ '': '' @ [dquote] @ v @ [dquote] @ '', ''
     @ flat_json_members kvs"

definition flat_json_dump :: "(string \<times> string) list \<Rightarrow> error + string" where
  "flat_json_dump kvs =
     (if list_all (\<lambda>kv. json_plain (fst kv) \<and> json_plain (snd kv)) kvs
      then Inr (''{'' @ flat_json_members kvs @ ''}'')
      else Inl NotModelled)"

text \<open>A string up to its closing quote, and the text after the quote.\<close>

definition flat_json_string :: "string \<Rightarrow> (string \<times> string) option" where
  "flat_json_string s =
     (if dquote \<in> set s \<and> json_plain (takeWhile (\<lambda>c. c \<noteq> dquote) s)
      then Some (takeWhile (\<lambda>c. c \<noteq> dquote) s, tl (dropWhile (\<lambda>c. c \<noteq> dquote) s))
      else None)"

text \<open>The members after an opening quote; \<open>n\<close> bounds their number.\<close>

fun flat_json_parse :: "nat \<Rightarrow> string \<Rightarrow> (string \<times> pyval) list \<Rightarrow> (string \<times> pyval) list option"
where
  "flat_json_parse 0 s acc = None"
| "flat_json_parse (Suc n) s acc =
     (case flat_json_string s of
        None \<Rightarrow> None
      | Some (k, r1) \<Rightarrow>
          if \<not> prefix ('': '' @ [dquote]) r1 then None
          else (case flat_json_string (drop 3 r1) of
                  None \<Rightarrow> None
                | Some (v, r2) \<Rightarrow>
                    if r2 = ''}'' then Some (AList.update k (JStr v) acc)
                    else if prefix ('', '' @ [dquote]) r2
                    then flat_json_parse n (drop 3 r2) (AList.update k (JStr v) acc)
                    else None))"

definition flat_json_load :: "string \<Rightarrow> error + pyval" where
  "flat_json_load text =
     (if text = ''{}'' then Inr (JDict [])
      else if prefix (''{'' @ [dquote]) text then
        (case flat_json_parse (length text) (drop 2 text) [] of
           None \<Rightarrow> Inl (ValueError ''No JSON object could be decoded'')
         | Some kvs \<Rightarrow> Inr (JDict kvs))
      else Inl (ValueError ''No JSON object could be decoded''))"

definition demo_slugify :: "string \<Rightarrow> string" where
  "demo_slugify s = filter (\<lambda>c. c \<noteq> dot) s"

definition demo_lib :: pylib where
  "demo_lib =
     \<lparr>md5_hexdigest = demo_md5, json_load = flat_json_load, json_dump = flat_json_dump,
      slugify = demo_slugify\<rparr>"

text \<open>
  A service that knows the project \<^verbatim>\<open>onshape-newton\<close> with the resource \<^verbatim>\<open>a.po\<close>.
  Its state is the list of the files uploaded so far; every translation reads
  \<^verbatim>\<open>bonjour\<close>.
\<close>

definition demo_stats :: stats where
  "demo_stats =
     \<lparr>translated_words = 1, untranslated_words = 0, translated_entities = 1,
      untranslated_entities = 0, completed = ''100%'', last_commiter = ''buildmaster'',
      last_update = ''2015-01-01''\<rparr>"

definition demo_upload :: "string list \<Rightarrow> filesys \<Rightarrow> string \<Rightarrow> error + string list" where
  "demo_upload remote fs res_file =
     (case files fs res_file of None \<Rightarrow> Inl IOError | Some content \<Rightarrow> Inr (remote @ [res_file]))"

definition demo_api :: "string list transifex" where
  "demo_api =
     \<lparr>project_exists = (\<lambda>remote slug. Inr (slug = ''onshape-newton'')),
      list_resources = (\<lambda>remote slug. Inr [''a.po'']),
      update_source_translation = (\<lambda>remote fs slug res_file i18n. demo_upload remote fs res_file),
      new_resource = (\<lambda>remote fs slug res_file name i18n. demo_upload remote fs res_file),
      get_translation = (\<lambda>remote slug res lang. Inr ''bonjour''),
      get_statistics = (\<lambda>remote slug res lang. Inr demo_stats)\<rparr>"

definition demo_tu :: trans_update where
  "demo_tu = TransUpdate_init ''newton'' False ''/repo'' scenario_spec"

text \<open>
  The repository of the examples: \<^verbatim>\<open>/repo/proj\<close> holds \<^verbatim>\<open>a.po\<close> with the content
  \<^verbatim>\<open>hello\<close>, and the checksum folder \<^verbatim>\<open>/ck\<close> holds the files given by \<open>cks\<close>.
\<close>

definition demo_fs :: "(string \<times> string) list \<Rightarrow> filesys" where
  "demo_fs cks =
     \<lparr>files = map_of ((''/repo/proj/a.po'', ''hello'') # cks),
      dirs = [''/repo/proj'' \<mapsto> [''a.po''], ''/ck'' \<mapsto> map (os_path_basename \<circ> fst) cks]\<rparr>"

subsection \<open>Units of a translation list\<close>

text \<open>
  The specification's reading of one index of the three lists of translation mode: a
  file, a resource name and a language code that belong together. For a rule and a
  language of the resource file, the file is the translated path derived for that
  language, from the rule's template or from one of its English files, and the resource
  name is the base name it derives from.
\<close>

definition item_unit ::
  "filesys \<Rightarrow> resource_info \<Rightarrow> rule \<Rightarrow> string \<times> string option \<Rightarrow> string \<Rightarrow> string \<Rightarrow> bool"
where
  "item_unit fs ri item lang file res =
     (if is_templated item then
        (case py_format (item0 item) (item1 item @ native_lang lang) of
           Inl e \<Rightarrow> False
         | Inr p \<Rightarrow>
             file = os_path_join (src_folder ri) p \<and> res = snd (os_path_split (item0 item)))
      else
        (case get_english_files fs ri (full_filespec (src_folder ri) item) (item1 item) of
           Inl e \<Rightarrow> False
         | Inr english_files \<Rightarrow>
             list_ex (\<lambda>english_file.
                 file = lang_file item (native_lang lang) english_file
                 \<and> res = snd (os_path_split english_file))
               english_files))"

definition translation_unit ::
  "filesys \<Rightarrow> resource_info \<Rightarrow> string \<Rightarrow> string \<Rightarrow> string \<Rightarrow> bool"
where
  "translation_unit fs ri file res code =
     list_ex (\<lambda>item.
         list_ex (\<lambda>lang. fst lang = code \<and> item_unit fs ri item lang file res)
           (langs (res_spec ri)))
       (resources (res_spec ri))"

text \<open>The three lists have one length and every index of them is a unit.\<close>

definition aligned :: "filesys \<Rightarrow> resource_info \<Rightarrow> file_lists \<Rightarrow> bool" where
  "aligned fs ri acc =
     (case acc of
        (file_list, tx_res_list, tx_lang_list) \<Rightarrow>
          length tx_res_list = length file_list \<and> length tx_lang_list = length file_list
          \<and> list_all (\<lambda>(f, r, l). translation_unit fs ri f r l)
              (zip file_list (zip tx_res_list tx_lang_list)))"

text \<open>A resource file with a wildcard rule and a templated rule, and two languages.\<close>

definition two_rule_info :: resource_info where
  "two_rule_info = ResourceInfo_init ''/repo''
     \<lparr>resources = [(''proj/*.po'', ''_'', None), (''ios/%s.lproj/L.strings'', [], Some ''en'')],
      langs = [(''fr'', None), (''zh_CN'', Some ''zh'')]\<rparr>"

text \<open>
  Three resource files and a snapshot of an earlier run: \<^verbatim>\<open>a.po\<close> is as it was,
  \<^verbatim>\<open>b.po\<close> has another content now and \<^verbatim>\<open>c.po\<close> is new.
\<close>

definition earlier_snapshot :: string where
  \<open>earlier_snapshot =
     ''{"proj/a.po": "5d41402abc4b2a76b9719d911017c592", "proj/b.po": "f02368945726d5fc2a14eb576f7276c0"}''\<close>

definition detector_fs :: filesys where
  "detector_fs =
     \<lparr>files = map_of
        [(''/repo/proj/a.po'', ''hello''), (''/repo/proj/b.po'', ''hello world''),
         (''/repo/proj/c.po'', ''bonjour''), (''/ck/master_newton.json'', earlier_snapshot)],
      dirs = [''/repo/proj'' \<mapsto> [''c.po'', ''b.po'', ''a.po''],
              ''/ck'' \<mapsto> [''master_newton.json'']]\<rparr>"

definition detector_files :: "string list" where
  "detector_files = [''/repo/proj/c.po'', ''/repo/proj/b.po'', ''/repo/proj/a.po'']"

text \<open>The snapshot of a pull that fetched \<^verbatim>\<open>a_fr.po\<close> with the content \<^verbatim>\<open>bonjour\<close>.\<close>

definition pull_snapshot :: string where
  \<open>pull_snapshot = ''{"proj/a_fr.po": "f02368945726d5fc2a14eb576f7276c0"}''\<close>

text \<open>
  What a path holds after a flow has returned. The snapshot of the examples' push is
  \<^verbatim>\<open>/ck/master_newton_english.json\<close>; \<open>stale_snapshot\<close> is the snapshot of a run when
  the repository still had \<^verbatim>\<open>old.po\<close>, and \<open>fresh_snapshot\<close> is the snapshot of the
  repository as it is.
\<close>

definition file_after :: "string \<Rightarrow> error + filesys \<times> 'a \<Rightarrow> error + string option" where
  "file_after p r = (case r of Inl e \<Rightarrow> Inl e | Inr (fs', rest) \<Rightarrow> Inr (files fs' p))"

definition stale_snapshot :: string where
  \<open>stale_snapshot =
     ''{"proj/a.po": "5d41402abc4b2a76b9719d911017c592", "proj/old.po": "f02368945726d5fc2a14eb576f7276c0"}''\<close>

definition fresh_snapshot :: string where
  \<open>fresh_snapshot = ''{"proj/a.po": "5d41402abc4b2a76b9719d911017c592"}''\<close>

text \<open>
  What the round trip of the snapshot needs from the JSON library: a dictionary of
  strings that \<^verbatim>\<open>json.dump\<close> accepts is decoded by \<^verbatim>\<open>json.load\<close> to a dictionary
  with the same keys and the same strings.
\<close>

definition json_round_trip :: "pylib \<Rightarrow> bool" where
  "json_round_trip lib =
     (\<forall>kvs text. distinct (map fst kvs) \<and> json_dump lib kvs = Inr text \<longrightarrow>
        (\<exists>d. json_load lib text = Inr (JDict d) \<and> map_of d = map_option JStr \<circ> map_of kvs))"

text \<open>The snapshot of the three resource files of \<open>detector_fs\<close>, keys in order.\<close>

definition full_snapshot :: string where
  \<open>full_snapshot =
     ''{"proj/a.po": "5d41402abc4b2a76b9719d911017c592", "proj/b.po": "5eb63bbbe01eeed093cb22bb8f5acdc3", "proj/c.po": "f02368945726d5fc2a14eb576f7276c0"}''\<close>

text \<open>
  A resource file whose separator is a dot: English files \<^verbatim>\<open>i18n/*.json\<close>, the
  Italian translation of \<^verbatim>\<open>x.json\<close> in \<^verbatim>\<open>x.it.json\<close>.
\<close>

definition dot_separator_info :: resource_info where
  "dot_separator_info = ResourceInfo_init ''/repo''
     \<lparr>resources = [(''i18n/*.json'', ''.'', None)], langs = [(''it'', None)]\<rparr>"

section \<open>Properties\<close>

subsection \<open>Reading a file in blocks\<close>

text \<open>
  The read loop of \<^verbatim>\<open>_compute_file_hash\<close> hands the whole content to the digest,
  whatever the positive block size.
\<close>

lemma md5_read_loop_eq [code]:
  "md5_read_loop n fed rest = (if n = 0 then fed else fed @ rest)"
proof (induction n fed rest rule: md5_read_loop.induct)
  case (1 n fed rest)
  show ?case
  proof (cases "take n rest = []")
    case True
    then show ?thesis
      by (subst md5_read_loop.simps) auto
  next
    case False
    then have n: "n \<noteq> 0" by auto
    from "1.IH" [OF False] n
    have ih: "md5_read_loop n (fed @ take n rest) (drop n rest) = (fed @ take n rest) @ drop n rest"
      by (simp only: if_False)
    have step: "md5_read_loop n fed rest = md5_read_loop n (fed @ take n rest) (drop n rest)"
      by (subst md5_read_loop.simps) (simp only: False if_False)
    show ?thesis
      unfolding step ih using n by simp
  qed
qed


subsection \<open>The upload format\<close>

text \<open>
  C7. The claim: the upload format is the table entry for the seven extensions, and
  every other file name, also one without an extension, fails with the error for an
  unrecognised extension. For a name without an extension \<^verbatim>\<open>os.path.splitext\<close>
  gives the empty string, \<^verbatim>\<open>"".split(".")\<close> is the one-element list, and the index
  \<^verbatim>\<open>[1]\<close> of line 161 raises IndexError before the table is looked at.
\<close>

theorem C7_no_extension_raises_IndexError:
  "get_i18n_type ''/repo/proj/Makefile'' = Inl IndexError"
  by code_simp

subsection \<open>The scenario of the specification\<close>

text \<open>
  C5. With the rule \<^verbatim>\<open>proj/*.po\<close>, separator \<^verbatim>\<open>_\<close>, no English marker, the language
  \<^verbatim>\<open>fr\<close> and a directory that lists \<^verbatim>\<open>a.po\<close> and \<^verbatim>\<open>a_fr.po\<close>, English mode
  returns the path of \<^verbatim>\<open>a.po\<close> only, and translation mode returns the path of
  \<^verbatim>\<open>a_fr.po\<close> only, with the resource \<^verbatim>\<open>a.po\<close> and the language \<^verbatim>\<open>fr\<close>. Stated
  for a repository at \<^verbatim>\<open>/repo\<close> and for the empty source folder, with the directory
  listed in either order.
\<close>

theorem C5_scenario:
  "get (scenario_fs ''/repo/proj'' [''a.po'', ''a_fr.po''])
       (ResourceInfo_init ''/repo'' scenario_spec) True
     = Inr ([''/repo/proj/a.po''], [], [])
   \<and> get (scenario_fs ''/repo/proj'' [''a.po'', ''a_fr.po''])
       (ResourceInfo_init ''/repo'' scenario_spec) False
     = Inr ([''/repo/proj/a_fr.po''], [''a.po''], [''fr''])
   \<and> get (scenario_fs ''proj'' [''a_fr.po'', ''a.po'']) (ResourceInfo_init [] scenario_spec) True
     = Inr ([''proj/a.po''], [], [])
   \<and> get (scenario_fs ''proj'' [''a_fr.po'', ''a.po'']) (ResourceInfo_init [] scenario_spec) False
     = Inr ([''proj/a_fr.po''], [''a.po''], [''fr''])"
  by code_simp

subsection \<open>Missing files and unreadable snapshots\<close>

lemma load_hashinfo_missing:
  "files fs p = None \<Longrightarrow> load_hashinfo lib fs p = Inl IOError"
  by (simp add: load_hashinfo_def open_read_def)

lemma load_hashinfo_invalid:
  "files fs p = Some content \<Longrightarrow> json_load lib content = Inl e
   \<Longrightarrow> load_hashinfo lib fs p = Inl e"
  by (simp add: load_hashinfo_def open_read_def)

text \<open>
  C6. The digest of a path that does not exist fails with \<^verbatim>\<open>TransUpdateError\<close>,
  whatever the path. Reading the snapshot returns a value and no error: the empty
  dictionary when the snapshot file is missing and when its text is rejected by the
  JSON decoder.
\<close>

theorem C6_hash_hard_fail_snapshot_soft_fail:
  "(\<not> os_path_exists fs filename \<longrightarrow>
      compute_file_hash lib fs filename n =
        Inl (TransUpdateError
          (''ERROR: file does not exist: '' @ [quote] @ filename @ [quote])))
   \<and> (files fs (get_hash_filename cksum_folder git_branch (reponame tu) sfx) = None \<longrightarrow>
      read_previous_hashinfo lib fs tu cksum_folder git_branch sfx = JDict [])
   \<and> (files fs (get_hash_filename cksum_folder git_branch (reponame tu) sfx) = Some content
        \<and> json_load lib content = Inl e \<longrightarrow>
      read_previous_hashinfo lib fs tu cksum_folder git_branch sfx = JDict [])"
  by (auto simp: compute_file_hash_def read_previous_hashinfo_def load_hashinfo_missing
      load_hashinfo_invalid)

theorem C6_witness:
  "compute_file_hash demo_lib (demo_fs [(''/ck/master_newton.json'', ''{oops'')])
       ''/repo/proj/b.po'' 8192 =
      Inl (TransUpdateError
        (''ERROR: file does not exist: '' @ [quote] @ ''/repo/proj/b.po'' @ [quote]))
   \<and> read_previous_hashinfo demo_lib (demo_fs []) demo_tu ''/ck'' ''master'' [] = JDict []
   \<and> read_previous_hashinfo demo_lib (demo_fs [(''/ck/master_newton.json'', ''{oops'')])
       demo_tu ''/ck'' ''master'' [] = JDict []"
proof -
  let ?bad = "demo_fs [(''/ck/master_newton.json'', ''{oops'')]"
  have nm: "get_hash_filename ''/ck'' ''master'' (reponame demo_tu) [] = ''/ck/master_newton.json''"
    by code_simp
  have a: "\<not> os_path_exists ?bad ''/repo/proj/b.po''"
    by code_simp
  have b: "files (demo_fs []) (get_hash_filename ''/ck'' ''master'' (reponame demo_tu) []) = None"
    unfolding nm by code_simp
  have c: "files ?bad (get_hash_filename ''/ck'' ''master'' (reponame demo_tu) []) = Some ''{oops''
      \<and> json_load demo_lib ''{oops'' = Inl (ValueError ''No JSON object could be decoded'')"
    unfolding nm by code_simp
  from a b c show ?thesis
    using C6_hash_hard_fail_snapshot_soft_fail
      [of ?bad "''/repo/proj/b.po''" demo_lib 8192 "''/ck''" "''master''" demo_tu "[]"
        "''{oops''" "ValueError ''No JSON object could be decoded''"]
      C6_hash_hard_fail_snapshot_soft_fail
      [of "demo_fs []" "''/repo/proj/b.po''" demo_lib 8192 "''/ck''" "''master''" demo_tu "[]"
        "''{oops''" "ValueError ''No JSON object could be decoded''"]
    by blast
qed

subsection \<open>The three lists of translation mode\<close>

lemma wildcard_files_loop_eq:
  "wildcard_files_loop item lang es (fl, rl, ll) =
     (fl @ map (lang_file item (native_lang lang)) es,
      rl @ map (\<lambda>e. snd (os_path_split e)) es,
      ll @ map (\<lambda>e. fst lang) es)"
  by (induction es arbitrary: fl rl ll) auto

lemma aligned_append:
  assumes "aligned fs ri (fl, rl, ll)"
    and "length rs = length fs'" and "length ls = length fs'"
    and "list_all (\<lambda>(f, r, l). translation_unit fs ri f r l) (zip fs' (zip rs ls))"
  shows "aligned fs ri (fl @ fs', rl @ rs, ll @ ls)"
  using assms by (simp add: aligned_def)

lemma translation_unitI:
  "item \<in> set (resources (res_spec ri)) \<Longrightarrow> lang \<in> set (langs (res_spec ri))
   \<Longrightarrow> item_unit fs ri item lang file res \<Longrightarrow> translation_unit fs ri file res (fst lang)"
  unfolding translation_unit_def list_ex_iff by blast

lemma wildcard_files_loop_aligned:
  assumes "aligned fs ri acc" "item \<in> set (resources (res_spec ri))"
    "lang \<in> set (langs (res_spec ri))" "\<not> is_templated item"
    "get_english_files fs ri (full_filespec (src_folder ri) item) (item1 item) = Inr english_files"
    "set es \<subseteq> set english_files"
  shows "aligned fs ri (wildcard_files_loop item lang es acc)"
proof -
  obtain fl rl ll where acc: "acc = (fl, rl, ll)" by (cases acc) auto
  have u: "translation_unit fs ri (lang_file item (native_lang lang) e)
      (snd (os_path_split e)) (fst lang)" if "e \<in> set es" for e
  proof (rule translation_unitI [OF assms(2,3)])
    from that assms(6) have "e \<in> set english_files" by blast
    then show "item_unit fs ri item lang (lang_file item (native_lang lang) e) (snd (os_path_split e))"
      using assms(4,5) by (auto simp: item_unit_def list_ex_iff)
  qed
  have "list_all (\<lambda>(f, r, l). translation_unit fs ri f r l)
      (zip (map (lang_file item (native_lang lang)) es)
         (zip (map (\<lambda>e. snd (os_path_split e)) es) (map (\<lambda>e. fst lang) es)))"
    using u by (induction es) auto
  then show ?thesis
    using assms(1) unfolding acc wildcard_files_loop_eq
    by (intro aligned_append) simp_all
qed

lemma wildcard_langs_loop_aligned:
  assumes "item \<in> set (resources (res_spec ri))" "\<not> is_templated item"
    "get_english_files fs ri (full_filespec (src_folder ri) item) (item1 item) = Inr english_files"
  shows "aligned fs ri acc \<Longrightarrow> set ls \<subseteq> set (langs (res_spec ri))
    \<Longrightarrow> aligned fs ri (wildcard_langs_loop item ls english_files acc)"
proof (induction ls arbitrary: acc)
  case Nil
  then show ?case by simp
next
  case (Cons lang ls)
  have "aligned fs ri (wildcard_files_loop item lang english_files acc)"
    using Cons.prems assms by (intro wildcard_files_loop_aligned [where english_files = english_files]) auto
  then show ?case using Cons by simp
qed

lemma templated_langs_loop_aligned:
  assumes "item \<in> set (resources (res_spec ri))" "is_templated item"
  shows "aligned fs ri acc \<Longrightarrow> set ls \<subseteq> set (langs (res_spec ri))
    \<Longrightarrow> templated_langs_loop (src_folder ri) item ls acc = Inr acc'
    \<Longrightarrow> aligned fs ri acc'"
proof (induction ls arbitrary: acc)
  case Nil
  then show ?case by simp
next
  case (Cons lang ls)
  obtain fl rl ll where acc: "acc = (fl, rl, ll)" by (cases acc) auto
  from Cons.prems(3) obtain p where
    p: "py_format (item0 item) (item1 item @ native_lang lang) = Inr p"
    and rest: "templated_langs_loop (src_folder ri) item ls
        (fl @ [os_path_join (src_folder ri) p], rl @ [snd (os_path_split (item0 item))],
         ll @ [fst lang]) = Inr acc'"
    unfolding acc by (auto split: sum.splits)
  have "translation_unit fs ri (os_path_join (src_folder ri) p)
      (snd (os_path_split (item0 item))) (fst lang)"
    using Cons.prems(2) assms p by (intro translation_unitI) (auto simp: item_unit_def)
  then have "aligned fs ri (fl @ [os_path_join (src_folder ri) p],
      rl @ [snd (os_path_split (item0 item))], ll @ [fst lang])"
    using Cons.prems(1) unfolding acc by (intro aligned_append) simp_all
  then show ?case using Cons.IH rest Cons.prems(2) by auto
qed

lemma get_item_aligned:
  assumes "aligned fs ri acc" "item \<in> set (resources (res_spec ri))"
    "get_item fs ri False acc item = Inr acc'"
  shows "aligned fs ri acc'"
proof (cases "is_templated item")
  case True
  with assms(3) have "templated_langs_loop (src_folder ri) item (langs (res_spec ri)) acc = Inr acc'"
    by (auto simp: get_item_def split: prod.splits)
  then show ?thesis
    using templated_langs_loop_aligned [OF assms(2) True assms(1)] by blast
next
  case False
  with assms(3) obtain es where
    es: "get_english_files fs ri (full_filespec (src_folder ri) item) (item1 item) = Inr es"
    and acc': "acc' = wildcard_langs_loop item (langs (res_spec ri)) es acc"
    by (auto simp: get_item_def split: prod.splits sum.splits)
  show ?thesis
    unfolding acc' using wildcard_langs_loop_aligned [OF assms(2) False es assms(1)] by blast
qed

lemma get_loop_aligned:
  "aligned fs ri acc \<Longrightarrow> set items \<subseteq> set (resources (res_spec ri))
   \<Longrightarrow> get_loop fs ri False items acc = Inr acc' \<Longrightarrow> aligned fs ri acc'"
proof (induction items arbitrary: acc)
  case Nil
  then show ?case by simp
next
  case (Cons item items)
  from Cons.prems(3) obtain acc1 where
    a1: "get_item fs ri False acc item = Inr acc1"
    and rest: "get_loop fs ri False items acc1 = Inr acc'"
    by (auto split: sum.splits)
  have "aligned fs ri acc1"
    using get_item_aligned [OF Cons.prems(1) _ a1] Cons.prems(2) by simp
  then show ?case using Cons.IH rest Cons.prems(2) by auto
qed

text \<open>
  C10. When translation mode returns, its three lists have the same length, and at every
  index the file, the resource name and the language code form one unit: they come from
  one rule and one language of the resource file, the file being the translated path of
  that language and the resource name the English base name it derives from.
\<close>

theorem C10_translation_lists_aligned:
  assumes "get fs ri False = Inr (file_list, tx_res_list, tx_lang_list)"
  shows "length tx_res_list = length file_list \<and> length tx_lang_list = length file_list
    \<and> (\<forall>i < length file_list.
         translation_unit fs ri (file_list ! i) (tx_res_list ! i) (tx_lang_list ! i))"
proof -
  have "aligned fs ri ([], [], [])" by (simp add: aligned_def)
  then have al: "aligned fs ri (file_list, tx_res_list, tx_lang_list)"
    using get_loop_aligned assms unfolding get_def by blast
  then have len: "length tx_res_list = length file_list" "length tx_lang_list = length file_list"
    by (simp_all add: aligned_def)
  have "translation_unit fs ri (file_list ! i) (tx_res_list ! i) (tx_lang_list ! i)"
    if "i < length file_list" for i
  proof -
    have "(file_list ! i, tx_res_list ! i, tx_lang_list ! i)
        \<in> set (zip file_list (zip tx_res_list tx_lang_list))"
      using that len by (metis length_zip min.idem nth_mem nth_zip)
    with al show ?thesis by (auto simp: aligned_def list_all_iff)
  qed
  with len show ?thesis by blast
qed

theorem C10_witness:
  "get (scenario_fs ''/repo/proj'' [''a.po'', ''a_fr.po'']) two_rule_info False =
     Inr ([''/repo/proj/a_fr.po'', ''/repo/proj/a_zh.po'', ''/repo/ios/fr.lproj/L.strings'',
           ''/repo/ios/zh.lproj/L.strings''],
          [''a.po'', ''a.po'', ''L.strings'', ''L.strings''],
          [''fr'', ''zh_CN'', ''fr'', ''zh_CN''])
   \<and> translation_unit (scenario_fs ''/repo/proj'' [''a.po'', ''a_fr.po'']) two_rule_info
       ''/repo/ios/zh.lproj/L.strings'' ''L.strings'' ''zh_CN''"
proof -
  have e: "get (scenario_fs ''/repo/proj'' [''a.po'', ''a_fr.po'']) two_rule_info False =
     Inr ([''/repo/proj/a_fr.po'', ''/repo/proj/a_zh.po'', ''/repo/ios/fr.lproj/L.strings'',
           ''/repo/ios/zh.lproj/L.strings''],
          [''a.po'', ''a.po'', ''L.strings'', ''L.strings''],
          [''fr'', ''zh_CN'', ''fr'', ''zh_CN''])"
    by code_simp
  have "translation_unit (scenario_fs ''/repo/proj'' [''a.po'', ''a_fr.po'']) two_rule_info
       ''/repo/ios/zh.lproj/L.strings'' ''L.strings'' ''zh_CN''"
    using C10_translation_lists_aligned [OF e, THEN conjunct2, THEN conjunct2, rule_format, of 3]
    by simp
  with e show ?thesis by simp
qed

subsection \<open>The change detector\<close>

lemma compute_file_hash_exists:
  "files fs f = Some content \<Longrightarrow>
   compute_file_hash lib fs f n = Inr (md5_hexdigest lib (md5_read_loop n [] content))"
  by (simp add: compute_file_hash_def os_path_exists_def open_read_def)

lemma compute_hashinfo_loop_total:
  "\<forall>f \<in> set file_list. files fs f \<noteq> None \<Longrightarrow>
   \<exists>latest. compute_hashinfo_loop lib fs download_path file_list hashinfo = Inr latest"
proof (induction file_list arbitrary: hashinfo)
  case Nil
  then show ?case by simp
next
  case (Cons f file_list)
  then obtain content where "files fs f = Some content" by auto
  then show ?case using Cons by (simp add: compute_file_hash_exists)
qed

lemma compute_hashinfo_loop_distinct:
  "compute_hashinfo_loop lib fs download_path file_list hashinfo = Inr latest \<Longrightarrow>
   distinct (map fst hashinfo) \<Longrightarrow> distinct (map fst latest)"
proof (induction file_list arbitrary: hashinfo)
  case Nil
  then show ?case by simp
next
  case (Cons f file_list)
  then show ?case by (auto split: sum.splits simp: distinct_update)
qed

lemma changed_items_loop_dict:
  "changed_items_loop (JDict previous) latest changed_items =
     Inr (changed_items
          @ map fst (filter (\<lambda>(item, hash). map_of previous item \<noteq> Some (JStr hash)) latest))"
proof (induction latest arbitrary: changed_items)
  case Nil
  then show ?case by simp
next
  case (Cons kv latest)
  obtain item hash where kv: "kv = (item, hash)" by (cases kv)
  show ?case
  proof (cases "map_of previous item")
    case None
    then show ?thesis unfolding kv by (simp add: Cons.IH)
  next
    case (Some v)
    then show ?thesis unfolding kv by (auto simp: Cons.IH)
  qed
qed

text \<open>
  C4. When a checksum folder is given, every file of the list exists and the previous
  snapshot is a dictionary, the change detector returns: its result holds exactly the
  relative paths of the current hashes that the previous snapshot lacks or has with
  another value, each once, in ascending order of the paths.
\<close>

theorem C4_changed_and_new_sorted:
  assumes "cksum_folder \<noteq> []"
    and "\<forall>f \<in> set file_list. files fs f \<noteq> None"
    and "read_previous_hashinfo lib fs tu cksum_folder git_branch sfx = JDict previous"
  shows "\<exists>latest changed.
      compute_current_hashinfo lib fs download_path file_list = Inr latest
      \<and> get_changed_and_new_resources lib fs tu cksum_folder git_branch download_path
          file_list sfx = Inr changed
      \<and> sorted changed \<and> distinct changed
      \<and> set changed =
          {item. \<exists>hash. map_of latest item = Some hash
                   \<and> map_of previous item \<noteq> Some (JStr hash)}"
proof -
  from compute_hashinfo_loop_total [OF assms(2)] obtain latest where
    latest: "compute_current_hashinfo lib fs download_path file_list = Inr latest"
    unfolding compute_current_hashinfo_def by blast
  then have d: "distinct (map fst latest)"
    unfolding compute_current_hashinfo_def using compute_hashinfo_loop_distinct by fastforce
  let ?pick = "filter (\<lambda>(item, hash). map_of previous item \<noteq> Some (JStr hash)) latest"
  let ?changed = "sort (map fst ?pick)"
  have r: "get_changed_and_new_resources lib fs tu cksum_folder git_branch download_path
      file_list sfx = Inr ?changed"
    using assms(1,3) latest
    by (simp add: get_changed_and_new_resources_def changed_items_loop_dict)
  have "distinct (map fst ?pick)"
    using d by (simp add: distinct_map_filter)
  then have dc: "distinct ?changed" by simp
  have "set ?changed =
      {item. \<exists>hash. map_of latest item = Some hash \<and> map_of previous item \<noteq> Some (JStr hash)}"
    using d by (auto simp: image_iff)
  with latest r dc show ?thesis by (intro exI [of _ latest] exI [of _ ?changed]) simp
qed

theorem C4_witness:
  "get_changed_and_new_resources demo_lib detector_fs demo_tu ''/ck'' ''master'' ''/repo''
      detector_files [] = Inr [''proj/b.po'', ''proj/c.po'']
   \<and> (\<exists>latest changed.
        compute_current_hashinfo demo_lib detector_fs ''/repo'' detector_files = Inr latest
        \<and> get_changed_and_new_resources demo_lib detector_fs demo_tu ''/ck'' ''master'' ''/repo''
            detector_files [] = Inr changed
        \<and> sorted changed \<and> distinct changed
        \<and> set changed =
            {item. \<exists>hash. map_of latest item = Some hash
               \<and> map_of [(''proj/a.po'', JStr ''5d41402abc4b2a76b9719d911017c592''),
                          (''proj/b.po'', JStr ''f02368945726d5fc2a14eb576f7276c0'')] item
                   \<noteq> Some (JStr hash)})"
proof -
  have a: "''/ck'' \<noteq> []" by simp
  have b: "\<forall>f \<in> set detector_files. files detector_fs f \<noteq> None"
    by code_simp
  have c: "read_previous_hashinfo demo_lib detector_fs demo_tu ''/ck'' ''master'' [] =
      JDict [(''proj/a.po'', JStr ''5d41402abc4b2a76b9719d911017c592''),
             (''proj/b.po'', JStr ''f02368945726d5fc2a14eb576f7276c0'')]"
    by code_simp
  have d: "get_changed_and_new_resources demo_lib detector_fs demo_tu ''/ck'' ''master'' ''/repo''
      detector_files [] = Inr [''proj/b.po'', ''proj/c.po'']"
    by code_simp
  from d C4_changed_and_new_sorted [OF a b c, of "''/repo''"] show ?thesis by blast
qed

subsection \<open>The exit value of the pull flow\<close>

text \<open>
  C9. When the pull flow returns, the change detector, run on the file system as the
  downloads and the download list left it, has returned a list for the files of
  translation mode; the exit value is \<open>EXIT_OK_NOCHANGES\<close> (100) exactly when that list
  is empty and \<open>EXIT_OK\<close> (0) exactly when it is not.
\<close>


theorem C9_pull_exit_value:
  assumes "process_translated_files lib api tu fs remote cksum_folder git_branch download_path
             download_list_file = Inr (fs', exit_val)"
  shows "\<exists>file_list tx_res_list tx_lang_list changed.
      get fs (res_info tu) False = Inr (file_list, tx_res_list, tx_lang_list)
      \<and> get_changed_and_new_resources lib fs' tu cksum_folder git_branch download_path
          file_list [] = Inr changed
      \<and> (exit_val = EXIT_OK_NOCHANGES) = (changed = [])
      \<and> (exit_val = EXIT_OK) = (changed \<noteq> [])"
  using assms
  by (auto simp: process_translated_files_def display_results_def EXIT_OK_def
      EXIT_OK_NOCHANGES_def split: sum.splits prod.splits if_splits)

theorem C9_witness:
  "\<exists>fs' file_list tx_res_list tx_lang_list changed.
      process_translated_files demo_lib demo_api demo_tu
        (demo_fs [(''/ck/master_newton.json'', pull_snapshot)]) [] ''/ck'' ''master'' ''/repo'' None
        = Inr (fs', EXIT_OK_NOCHANGES)
      \<and> get (demo_fs [(''/ck/master_newton.json'', pull_snapshot)]) (res_info demo_tu) False
          = Inr (file_list, tx_res_list, tx_lang_list)
      \<and> get_changed_and_new_resources demo_lib fs' demo_tu ''/ck'' ''master'' ''/repo''
          file_list [] = Inr changed
      \<and> changed = []"
proof -
  let ?fs = "demo_fs [(''/ck/master_newton.json'', pull_snapshot)]"
  let ?run = "process_translated_files demo_lib demo_api demo_tu ?fs [] ''/ck'' ''master''
      ''/repo'' None"
  have "map_sum id snd ?run = Inr EXIT_OK_NOCHANGES"
    by code_simp
  then obtain fs' where r: "?run = Inr (fs', EXIT_OK_NOCHANGES)"
    by (cases ?run) auto
  from C9_pull_exit_value [OF r] r show ?thesis by blast
qed

subsection \<open>Which flow writes the snapshot\<close>

lemma create_path_files: "create_path fs path = Inr fs' \<Longrightarrow> files fs' = files fs"
  by (auto simp: create_path_def os_makedirs_def split: if_splits sum.splits error.splits)

lemma open_write_files:
  "open_write fs p content = Inr fs' \<Longrightarrow> fs' = fs\<lparr>files := (files fs)(p \<mapsto> content)\<rparr>"
  by (auto simp: open_write_def split: if_splits)

lemma download_loop_frame:
  "download_loop lib api remote project_slug download_path tx_res_list tx_lang_list i file_list
     fs stats_all = Inr (fs', stats_all')
   \<Longrightarrow> p \<notin> set file_list \<Longrightarrow> files fs' p = files fs p"
proof (induction file_list arbitrary: fs stats_all i)
  case Nil
  then show ?case by simp
next
  case (Cons f rest)
  from Cons.prems(1) obtain fs1 body fs2 st where
    c: "create_path fs (os_path_dirname f) = Inr fs1"
    and w: "open_write fs1 f body = Inr fs2"
    and r: "download_loop lib api remote project_slug download_path tx_res_list tx_lang_list
        (Suc i) rest fs2 (AList.update (drop (length download_path + 1) f) st stats_all)
        = Inr (fs', stats_all')"
    by (auto split: if_splits sum.splits)
  from Cons.prems(2) have "p \<noteq> f" "p \<notin> set rest" by auto
  with Cons.IH [OF r] have "files fs' p = files fs2 p" by simp
  also have "\<dots> = files fs1 p" using open_write_files [OF w] \<open>p \<noteq> f\<close> by simp
  also have "\<dots> = files fs p" using create_path_files [OF c] by simp
  finally show ?case .
qed

lemma write_download_list_file_frame:
  "write_download_list_file fs download_list_file download_path file_list = Inr fs'
   \<Longrightarrow> download_list_file \<noteq> Some p \<Longrightarrow> files fs' p = files fs p"
  by (cases download_list_file)
    (auto simp: write_download_list_file_def truthy_def dest!: open_write_files split: if_splits)

lemma process_translated_files_frame:
  assumes "process_translated_files lib api tu fs remote cksum_folder git_branch download_path
             download_list_file = Inr (fs', exit_val)"
    and "get fs (res_info tu) False = Inr (file_list, tx_res_list, tx_lang_list)"
    and "p \<notin> set file_list" and "download_list_file \<noteq> Some p"
  shows "files fs' p = files fs p"
proof -
  from assms(1,2) obtain fs1 stats where
    d: "download_from_transifex lib api tu fs remote download_path file_list tx_res_list
          tx_lang_list = Inr (fs1, stats)"
    and w: "write_download_list_file fs1 download_list_file download_path file_list = Inr fs'"
    by (auto simp: process_translated_files_def split: sum.splits prod.splits)
  from d have "files fs1 p = files fs p"
    using assms(3) download_loop_frame
    by (auto simp: download_from_transifex_def split: sum.splits)
  with write_download_list_file_frame [OF w assms(4)] show ?thesis by simp
qed

lemma upload_explicit_list_keeps_files:
  "upload_source_files lib api tu fs remote filelist False cksum_folder git_branch download_path
     = Inr (fs', remote', exit_val) \<Longrightarrow> fs' = fs"
  by (auto simp: upload_source_files_def split: sum.splits)

lemma upload_hash_compare_writes:
  assumes "upload_source_files lib api tu fs remote filelist True cksum_folder git_branch
             download_path = Inr (fs', remote', exit_val)"
    and "get_filtered_upload_list_by_cksum_compare lib fs tu cksum_folder git_branch
           download_path ''english'' = Inr res_files"
    and "res_files \<noteq> []"
  shows "\<exists>file_list tx_res_list tx_lang_list latest text.
      get fs (res_info tu) True = Inr (file_list, tx_res_list, tx_lang_list)
      \<and> compute_current_hashinfo lib fs download_path file_list = Inr latest
      \<and> json_dump lib (sort_key fst latest) = Inr text
      \<and> fs' = fs\<lparr>files := (files fs)
            (get_hash_filename cksum_folder git_branch (reponame tu) ''english'' \<mapsto> text)\<rparr>
      \<and> exit_val = EXIT_OK"
proof -
  from assms obtain ok where
    w: "write_cksumfile lib fs tu cksum_folder git_branch download_path ''english'' True
          = Inr (fs', ok)" and e: "exit_val = EXIT_OK"
    by (auto simp: upload_source_files_def split: sum.splits prod.splits)
  from w e show ?thesis
    by (auto simp: write_cksumfile_def dest!: open_write_files split: sum.splits prod.splits)
qed

lemma upload_hash_compare_nothing_changed:
  assumes "upload_source_files lib api tu fs remote filelist True cksum_folder git_branch
             download_path = Inr (fs', remote', exit_val)"
    and "get_filtered_upload_list_by_cksum_compare lib fs tu cksum_folder git_branch
           download_path ''english'' = Inr []"
  shows "fs' = fs"
  using assms by (auto simp: upload_source_files_def split: sum.splits prod.splits)

text \<open>
  C1, as stated, fails: a push in hash-compare mode that finds no changed or new file
  uploads nothing, returns \<open>EXIT_OK\<close> and leaves the checksum file as it was (line
  233 asks for at least one uploaded file). Here the file keeps the entry of
  \<^verbatim>\<open>old.po\<close>, which the snapshot of the repository as it is does not have.
\<close>

theorem C1_counterexample:
  "file_after ''/ck/master_newton_english.json''
     (upload_source_files demo_lib demo_api demo_tu
        (demo_fs [(''/ck/master_newton_english.json'', stale_snapshot)]) [] [] True
        ''/ck'' ''master'' ''/repo'')
     = Inr (Some stale_snapshot)
   \<and> file_after ''/ck/master_newton_english.json''
     (write_cksumfile demo_lib (demo_fs [(''/ck/master_newton_english.json'', stale_snapshot)])
        demo_tu ''/ck'' ''master'' ''/repo'' ''english'' True)
     = Inr (Some fresh_snapshot)
   \<and> stale_snapshot \<noteq> fresh_snapshot"
  by code_simp

text \<open>
  C1, amended. A push in hash-compare mode that selected at least one file and returns
  has written the snapshot of English mode, the digests of the English files as they are,
  to the checksum file, and changed nothing else; one that selected no file leaves the
  file system as it was. A push with an explicit file list leaves the file system as it
  was. The pull flow changes no file other than the files it downloads and the download
  list, so it writes no snapshot.
\<close>

theorem C1_snapshot_written_after_hash_compare_upload:
  "(upload_source_files lib api tu fs remote filelist True cksum_folder git_branch download_path
        = Inr (fs1, remote1, exit1)
      \<and> get_filtered_upload_list_by_cksum_compare lib fs tu cksum_folder git_branch download_path
          ''english'' = Inr res_files
      \<and> res_files \<noteq> [] \<longrightarrow>
      (\<exists>file_list tx_res_list tx_lang_list latest text.
          get fs (res_info tu) True = Inr (file_list, tx_res_list, tx_lang_list)
          \<and> compute_current_hashinfo lib fs download_path file_list = Inr latest
          \<and> json_dump lib (sort_key fst latest) = Inr text
          \<and> fs1 = fs\<lparr>files := (files fs)
                (get_hash_filename cksum_folder git_branch (reponame tu) ''english'' \<mapsto> text)\<rparr>))
   \<and> (upload_source_files lib api tu fs remote filelist True cksum_folder git_branch download_path
        = Inr (fs1, remote1, exit1)
      \<and> get_filtered_upload_list_by_cksum_compare lib fs tu cksum_folder git_branch download_path
          ''english'' = Inr [] \<longrightarrow> fs1 = fs)
   \<and> (upload_source_files lib api tu fs remote filelist False cksum_folder git_branch download_path
        = Inr (fs2, remote2, exit2) \<longrightarrow> fs2 = fs)
   \<and> (process_translated_files lib api tu fs remote cksum_folder git_branch download_path
        download_list_file = Inr (fs3, exit3)
      \<and> get fs (res_info tu) False = Inr (pull_files, pull_res, pull_langs)
      \<and> p \<notin> set pull_files \<and> download_list_file \<noteq> Some p \<longrightarrow>
      files fs3 p = files fs p)"
  using upload_hash_compare_writes [of lib api tu fs remote filelist cksum_folder git_branch
      download_path fs1 remote1 exit1 res_files]
    upload_hash_compare_nothing_changed [of lib api tu fs remote filelist cksum_folder git_branch
      download_path fs1 remote1 exit1]
    upload_explicit_list_keeps_files [of lib api tu fs remote filelist cksum_folder git_branch
      download_path fs2 remote2 exit2]
    process_translated_files_frame [of lib api tu fs remote cksum_folder git_branch
      download_path download_list_file fs3 exit3 pull_files pull_res pull_langs p]
  by blast

theorem C1_witness:
  "(\<exists>file_list tx_res_list tx_lang_list latest text.
       get (demo_fs []) (res_info demo_tu) True = Inr (file_list, tx_res_list, tx_lang_list)
       \<and> compute_current_hashinfo demo_lib (demo_fs []) ''/repo'' file_list = Inr latest
       \<and> json_dump demo_lib (sort_key fst latest) = Inr text
       \<and> upload_source_files demo_lib demo_api demo_tu (demo_fs []) [] [] True ''/ck'' ''master''
           ''/repo''
         = Inr ((demo_fs [])\<lparr>files := (files (demo_fs []))
                  (get_hash_filename ''/ck'' ''master'' (reponame demo_tu) ''english'' \<mapsto> text)\<rparr>,
                [''/repo/proj/a.po''], EXIT_OK))
   \<and> upload_source_files demo_lib demo_api demo_tu
         (demo_fs [(''/ck/master_newton_english.json'', stale_snapshot)]) [] [] True ''/ck''
         ''master'' ''/repo''
       = Inr (demo_fs [(''/ck/master_newton_english.json'', stale_snapshot)], [], EXIT_OK)
   \<and> upload_source_files demo_lib demo_api demo_tu (demo_fs []) [] ''all'' False [] [] ''/repo''
       = Inr (demo_fs [], [''/repo/proj/a.po''], EXIT_OK)
   \<and> file_after ''/ck/master_newton.json''
         (process_translated_files demo_lib demo_api demo_tu (demo_fs []) [] ''/ck'' ''master''
            ''/repo'' (Some ''/ck/downloaded.txt''))
       = Inr (files (demo_fs []) ''/ck/master_newton.json'')"
proof -
  let ?fs = "demo_fs []"
  let ?stale = "demo_fs [(''/ck/master_newton_english.json'', stale_snapshot)]"
  let ?up = "\<lambda>fs filelist filehash cksum_folder git_branch.
      upload_source_files demo_lib demo_api demo_tu fs [] filelist filehash cksum_folder
        git_branch ''/repo''"
  let ?pull = "process_translated_files demo_lib demo_api demo_tu ?fs [] ''/ck'' ''master''
      ''/repo'' (Some ''/ck/downloaded.txt'')"
  note c1 = C1_snapshot_written_after_hash_compare_upload
  \<comment> \<open>hash-compare mode, one new file\<close>
  have "map_sum id snd (?up ?fs [] True ''/ck'' ''master'') = Inr ([''/repo/proj/a.po''], EXIT_OK)"
    by code_simp
  then obtain fs1 where u1: "?up ?fs [] True ''/ck'' ''master''
      = Inr (fs1, [''/repo/proj/a.po''], EXIT_OK)"
    by (cases "?up ?fs [] True ''/ck'' ''master''") auto
  have f1: "get_filtered_upload_list_by_cksum_compare demo_lib ?fs demo_tu ''/ck'' ''master''
      ''/repo'' ''english'' = Inr [''/repo/proj/a.po'']"
    by code_simp
  have a: "\<exists>file_list tx_res_list tx_lang_list latest text.
       get ?fs (res_info demo_tu) True = Inr (file_list, tx_res_list, tx_lang_list)
       \<and> compute_current_hashinfo demo_lib ?fs ''/repo'' file_list = Inr latest
       \<and> json_dump demo_lib (sort_key fst latest) = Inr text
       \<and> fs1 = ?fs\<lparr>files := (files ?fs)
                  (get_hash_filename ''/ck'' ''master'' (reponame demo_tu) ''english'' \<mapsto> text)\<rparr>"
    using c1 [of demo_lib demo_api demo_tu ?fs "[]" "[]" "''/ck''" "''master''" "''/repo''"
        fs1 "[''/repo/proj/a.po'']" EXIT_OK "[''/repo/proj/a.po'']"] u1 f1
    by blast
  \<comment> \<open>hash-compare mode, nothing changed\<close>
  have "map_sum id snd (?up ?stale [] True ''/ck'' ''master'') = Inr ([], EXIT_OK)"
    by code_simp
  then obtain fs1' where u2: "?up ?stale [] True ''/ck'' ''master'' = Inr (fs1', [], EXIT_OK)"
    by (cases "?up ?stale [] True ''/ck'' ''master''") auto
  have f2: "get_filtered_upload_list_by_cksum_compare demo_lib ?stale demo_tu ''/ck'' ''master''
      ''/repo'' ''english'' = Inr []"
    by code_simp
  have b: "fs1' = ?stale"
    using c1 [of demo_lib demo_api demo_tu ?stale "[]" "[]" "''/ck''" "''master''" "''/repo''"
        fs1' "[]" EXIT_OK] u2 f2
    by blast
  \<comment> \<open>explicit list\<close>
  have "map_sum id snd (?up ?fs ''all'' False [] []) = Inr ([''/repo/proj/a.po''], EXIT_OK)"
    by code_simp
  then obtain fs2 where u3: "?up ?fs ''all'' False [] [] = Inr (fs2, [''/repo/proj/a.po''], EXIT_OK)"
    by (cases "?up ?fs ''all'' False [] []") auto
  have c: "fs2 = ?fs"
    using c1 [of demo_lib demo_api demo_tu ?fs "[]" "''all''" "[]" "[]" "''/repo''"
        _ _ _ _ fs2 "[''/repo/proj/a.po'']" EXIT_OK] u3
    by blast
  \<comment> \<open>pull\<close>
  have "map_sum id snd ?pull = Inr EXIT_OK"
    by code_simp
  then obtain fs3 where u4: "?pull = Inr (fs3, EXIT_OK)"
    by (cases ?pull) auto
  have g: "get ?fs (res_info demo_tu) False = Inr ([''/repo/proj/a_fr.po''], [''a.po''], [''fr''])"
    by code_simp
  have d: "files fs3 ''/ck/master_newton.json'' = files ?fs ''/ck/master_newton.json''"
    using c1 [of demo_lib demo_api demo_tu ?fs "[]" _ "''/ck''" "''master''" "''/repo''"
        _ _ _ _ _ _ _ "Some ''/ck/downloaded.txt''" fs3 EXIT_OK "[''/repo/proj/a_fr.po'']"
        "[''a.po'']" "[''fr'']" "''/ck/master_newton.json''"] u4 g
    by simp
  have e: "file_after ''/ck/master_newton.json'' ?pull = Inr (files ?fs ''/ck/master_newton.json'')"
    unfolding u4 using d by (simp add: file_after_def)
  from a u1 have a': "\<exists>file_list tx_res_list tx_lang_list latest text.
       get ?fs (res_info demo_tu) True = Inr (file_list, tx_res_list, tx_lang_list)
       \<and> compute_current_hashinfo demo_lib ?fs ''/repo'' file_list = Inr latest
       \<and> json_dump demo_lib (sort_key fst latest) = Inr text
       \<and> ?up ?fs [] True ''/ck'' ''master''
         = Inr (?fs\<lparr>files := (files ?fs)
                  (get_hash_filename ''/ck'' ''master'' (reponame demo_tu) ''english'' \<mapsto> text)\<rparr>,
                [''/repo/proj/a.po''], EXIT_OK)"
    by blast
  from u2 b have b': "?up ?stale [] True ''/ck'' ''master'' = Inr (?stale, [], EXIT_OK)"
    by blast
  from u3 c have c': "?up ?fs ''all'' False [] [] = Inr (?fs, [''/repo/proj/a.po''], EXIT_OK)"
    by blast
  from a' b' c' e show ?thesis
    by blast
qed

subsection \<open>Writing a snapshot and reading it back\<close>

text \<open>The stand-in codec of the examples round-trips every dictionary it accepts.\<close>

lemma flat_json_string_plain:
  "json_plain k \<Longrightarrow> flat_json_string (k @ dquote # r) = Some (k, r)"
proof -
  assume p: "json_plain k"
  then have nq: "\<forall>c \<in> set k. c \<noteq> dquote"
    by (auto simp: json_plain_def list_all_iff)
  then have t: "takeWhile (\<lambda>c. c \<noteq> dquote) (k @ dquote # r) = k"
    by (simp add: takeWhile_append2)
  from nq have d: "dropWhile (\<lambda>c. c \<noteq> dquote) (k @ dquote # r) = dquote # r"
    by (simp add: dropWhile_append2)
  show ?thesis
    unfolding flat_json_string_def t d using p by simp
qed

lemma flat_json_members_length: "length kvs \<le> length (flat_json_members kvs)"
  by (induction kvs rule: flat_json_members.induct) auto

lemma flat_json_members_hd:
  "kvs \<noteq> [] \<Longrightarrow> \<exists>m. flat_json_members kvs = dquote # m"
  by (induction kvs rule: flat_json_members.induct) auto

lemma flat_json_parse_members:
  "kvs \<noteq> [] \<Longrightarrow> list_all (\<lambda>kv. json_plain (fst kv) \<and> json_plain (snd kv)) kvs
   \<Longrightarrow> length kvs \<le> n
   \<Longrightarrow> flat_json_parse n (tl (flat_json_members kvs) @ ''}'') acc
       = Some (fold (\<lambda>kv. AList.update (fst kv) (JStr (snd kv))) kvs acc)"
proof (induction kvs arbitrary: n acc rule: flat_json_members.induct)
  case 1
  then show ?case by simp
next
  case (2 k v)
  then obtain m where n: "n = Suc m" by (cases n) auto
  from 2 have p: "json_plain k" "json_plain v" by auto
  show ?case
    unfolding n by (simp add: flat_json_string_plain p)
next
  case (3 k v kv kvs)
  then obtain m where n: "n = Suc m" "length (kv # kvs) \<le> m" by (cases n) auto
  from 3 have p: "json_plain k" "json_plain v"
    and rest: "list_all (\<lambda>kv. json_plain (fst kv) \<and> json_plain (snd kv)) (kv # kvs)"
    by auto
  obtain ms where ms: "flat_json_members (kv # kvs) = dquote # ms"
    using flat_json_members_hd [of "kv # kvs"] by auto
  have ih: "flat_json_parse m (ms @ ''}'') (AList.update k (JStr v) acc)
      = Some (fold (\<lambda>kv. AList.update (fst kv) (JStr (snd kv))) (kv # kvs)
          (AList.update k (JStr v) acc))"
    using "3.IH" [OF _ rest n(2), of "AList.update k (JStr v) acc"] ms by simp
  show ?case
    unfolding n(1) using ih by (simp add: ms flat_json_string_plain p)
qed

lemma map_of_fold_update:
  "distinct (map fst kvs) \<Longrightarrow>
   map_of (fold (\<lambda>kv. AList.update (fst kv) (JStr (snd kv))) kvs acc) x
     = (case map_of kvs x of None \<Rightarrow> map_of acc x | Some v \<Rightarrow> Some (JStr v))"
proof (induction kvs arbitrary: acc)
  case Nil
  then show ?case by simp
next
  case (Cons kv kvs)
  then have "map_of kvs (fst kv) = None"
    by (cases kv) (auto simp: map_of_eq_None_iff)
  with Cons show ?case
    by (cases kv) (auto simp: update_conv' split: option.splits)
qed

lemma flat_json_round_trip: "json_round_trip demo_lib"
  unfolding json_round_trip_def
proof (intro allI impI, elim conjE)
  fix kvs doc
  assume d: "distinct (map fst kvs)" and dump: "json_dump demo_lib kvs = Inr doc"
  from dump have plain: "list_all (\<lambda>kv. json_plain (fst kv) \<and> json_plain (snd kv)) kvs"
    and doc: "doc = ''{'' @ flat_json_members kvs @ ''}''"
    by (auto simp: demo_lib_def flat_json_dump_def split: if_splits)
  show "\<exists>d. json_load demo_lib doc = Inr (JDict d) \<and> map_of d = map_option JStr \<circ> map_of kvs"
  proof (cases "kvs = []")
    case True
    then show ?thesis
      unfolding doc by (auto simp: demo_lib_def flat_json_load_def)
  next
    case False
    then obtain ms where ms: "flat_json_members kvs = dquote # ms"
      using flat_json_members_hd by blast
    let ?d = "fold (\<lambda>kv. AList.update (fst kv) (JStr (snd kv))) kvs []"
    have "length kvs \<le> length doc"
      unfolding doc using flat_json_members_length [of kvs] by simp
    from flat_json_parse_members [OF False plain this, of "[]"]
    have "flat_json_parse (length doc) (ms @ ''}'') [] = Some ?d"
      by (simp add: ms)
    then have "json_load demo_lib doc = Inr (JDict ?d)"
      unfolding doc ms by (simp add: demo_lib_def flat_json_load_def dquote_def)
    moreover have "map_of ?d = map_option JStr \<circ> map_of kvs"
      using map_of_fold_update [OF d, of "[]"] by (auto simp: fun_eq_iff split: option.splits)
    ultimately show ?thesis by blast
  qed
qed

lemma distinct_map_sort_key:
  "distinct (map f (sort_key f xs)) = distinct (map f xs)"
  by (induction xs) (auto simp: distinct_insort_key)

lemma map_of_sort_key:
  "distinct (map fst kvs) \<Longrightarrow> map_of (sort_key fst kvs) = map_of kvs"
  by (simp add: map_of_inject_set distinct_map_sort_key)

text \<open>
  C8. For a JSON library that round-trips dictionaries of strings: when
  \<^verbatim>\<open>write_cksumfile\<close> returns, the file named by branch, repository and suffix
  holds the current hashes, dumped in the order of their keys, and
  \<^verbatim>\<open>_read_previous_hashinfo\<close> for the same branch, repository and suffix returns a
  dictionary with the same keys and the same values.
\<close>

theorem C8_write_then_read_snapshot:
  assumes "json_round_trip lib"
    and "write_cksumfile lib fs tu cksum_folder git_branch download_path sfx english_mode
           = Inr (fs', exit_val)"
  shows "\<exists>file_list tx_res_list tx_lang_list latest doc d.
      get fs (res_info tu) english_mode = Inr (file_list, tx_res_list, tx_lang_list)
      \<and> compute_current_hashinfo lib fs download_path file_list = Inr latest
      \<and> json_dump lib (sort_key fst latest) = Inr doc
      \<and> files fs' (get_hash_filename cksum_folder git_branch (reponame tu) sfx) = Some doc
      \<and> read_previous_hashinfo lib fs' tu cksum_folder git_branch sfx = JDict d
      \<and> map_of d = map_option JStr \<circ> map_of latest"
proof -
  let ?name = "get_hash_filename cksum_folder git_branch (reponame tu) sfx"
  from assms(2) obtain file_list tx_res_list tx_lang_list latest doc where
    g: "get fs (res_info tu) english_mode = Inr (file_list, tx_res_list, tx_lang_list)"
    and h: "compute_current_hashinfo lib fs download_path file_list = Inr latest"
    and j: "json_dump lib (sort_key fst latest) = Inr doc"
    and w: "open_write fs ?name doc = Inr fs'"
    by (auto simp: write_cksumfile_def split: sum.splits prod.splits)
  have f: "files fs' ?name = Some doc"
    using open_write_files [OF w] by simp
  have dl: "distinct (map fst latest)"
    using h compute_hashinfo_loop_distinct unfolding compute_current_hashinfo_def by fastforce
  then have "distinct (map fst (sort_key fst latest))"
    by (simp add: distinct_map_sort_key)
  with assms(1) j obtain d where
    l: "json_load lib doc = Inr (JDict d)"
    and m: "map_of d = map_option JStr \<circ> map_of (sort_key fst latest)"
    unfolding json_round_trip_def by blast
  have "read_previous_hashinfo lib fs' tu cksum_folder git_branch sfx = JDict d"
    using f l by (simp add: read_previous_hashinfo_def load_hashinfo_def open_read_def)
  with g h j f m map_of_sort_key [OF dl] show ?thesis by auto
qed

theorem C8_witness:
  "file_after ''/ck/master_newton.json''
     (write_cksumfile demo_lib detector_fs demo_tu ''/ck'' ''master'' ''/repo'' [] True)
     = Inr (Some full_snapshot)
   \<and> (\<exists>fs' file_list tx_res_list tx_lang_list latest doc d.
        write_cksumfile demo_lib detector_fs demo_tu ''/ck'' ''master'' ''/repo'' [] True
          = Inr (fs', EXIT_OK)
        \<and> get detector_fs (res_info demo_tu) True = Inr (file_list, tx_res_list, tx_lang_list)
        \<and> compute_current_hashinfo demo_lib detector_fs ''/repo'' file_list = Inr latest
        \<and> json_dump demo_lib (sort_key fst latest) = Inr doc
        \<and> files fs' (get_hash_filename ''/ck'' ''master'' (reponame demo_tu) []) = Some doc
        \<and> read_previous_hashinfo demo_lib fs' demo_tu ''/ck'' ''master'' [] = JDict d
        \<and> map_of d = map_option JStr \<circ> map_of latest)"
proof -
  let ?w = "write_cksumfile demo_lib detector_fs demo_tu ''/ck'' ''master'' ''/repo'' [] True"
  have a: "file_after ''/ck/master_newton.json'' ?w = Inr (Some full_snapshot)"
    by code_simp
  have "map_sum id snd ?w = Inr EXIT_OK"
    by code_simp
  then obtain fs' where w: "?w = Inr (fs', EXIT_OK)"
    by (cases ?w) auto
  from C8_write_then_read_snapshot [OF flat_json_round_trip w] a w show ?thesis
    by blast
qed

subsection \<open>The form of a rule\<close>

lemma str_in_iff: "str_in n h \<longleftrightarrow> (\<exists>a c. h = a @ n @ c)"
proof (induction h)
  case Nil
  then show ?case by simp
next
  case (Cons x xs)
  show ?case
  proof
    assume "str_in n (x # xs)"
    then consider "prefix n (x # xs)" | "str_in n xs" by auto
    then show "\<exists>a c. x # xs = a @ n @ c"
    proof cases
      case 1
      then obtain zs where "x # xs = n @ zs" by (auto simp: prefix_def)
      then have "x # xs = [] @ n @ zs" by simp
      then show ?thesis by blast
    next
      case 2
      with Cons obtain a c where "xs = a @ n @ c" by blast
      then have "x # xs = (x # a) @ n @ c" by simp
      then show ?thesis by blast
    qed
  next
    assume "\<exists>a c. x # xs = a @ n @ c"
    then obtain a c where e: "x # xs = a @ n @ c" by blast
    show "str_in n (x # xs)"
    proof (cases a)
      case Nil
      with e have "prefix n (x # xs)" by (simp add: prefix_def)
      then show ?thesis by simp
    next
      case (Cons y a')
      with e have "xs = a' @ n @ c" by simp
      with Cons.IH have "str_in n xs" by blast
      then show ?thesis by simp
    qed
  qed
qed

lemma str_in_snoc:
  assumes "z \<notin> set n" "n \<noteq> []"
  shows "str_in n (xs @ [z]) = str_in n xs"
proof
  assume "str_in n (xs @ [z])"
  then obtain a c where e: "xs @ [z] = a @ n @ c" unfolding str_in_iff by blast
  show "str_in n xs"
  proof (cases c rule: rev_cases)
    case Nil
    with e have "xs @ [z] = (a @ butlast n) @ [last n]" using assms(2) by simp
    then have "z = last n" by (simp only: append1_eq_conv)
    with assms show ?thesis by auto
  next
    case (snoc c' y)
    with e have "xs @ [z] = (a @ n @ c') @ [y]" by simp
    then have "xs = a @ n @ c'" by (simp only: append1_eq_conv)
    then show ?thesis unfolding str_in_iff by blast
  qed
next
  assume "str_in n xs"
  then obtain a c where "xs = a @ n @ c" unfolding str_in_iff by blast
  then have "xs @ [z] = a @ n @ (c @ [z])" by simp
  then show "str_in n (xs @ [z])" unfolding str_in_iff by blast
qed

lemma rstrip_snoc:
  "rstrip chars (xs @ [x]) = (if x \<in> set chars then rstrip chars xs else xs @ [x])"
  by (simp add: rstrip_def)

lemma str_in_rstrip:
  assumes "slash \<notin> set n" "n \<noteq> []"
  shows "str_in n (rstrip [slash] h) = str_in n h"
proof (induction h rule: rev_induct)
  case Nil
  then show ?case by (simp add: rstrip_def)
next
  case (snoc x xs)
  then show ?case using str_in_snoc [OF assms] by (simp add: rstrip_snoc)
qed

lemma rfind_last:
  assumes "c \<notin> set t"
  shows "rfind c (h @ c # t) = int (length h)"
proof -
  have "takeWhile (\<lambda>x. x \<noteq> c) (rev t @ c # rev h) = rev t"
    using assms by (subst takeWhile_append2) auto
  then show ?thesis by (simp add: rfind_def)
qed

lemma rfind_absent: "c \<notin> set s \<Longrightarrow> rfind c s = - 1"
  by (simp add: rfind_def)

lemma os_path_split_no_slash: "slash \<notin> set p \<Longrightarrow> os_path_split p = ([], p)"
  by (simp add: os_path_split_def rfind_absent)

lemma os_path_split_last_slash:
  assumes "slash \<notin> set t"
  shows "os_path_split (h @ slash # t) =
     (if h @ [slash] \<noteq> replicate (Suc (length h)) slash then rstrip [slash] (h @ [slash])
      else h @ [slash], t)"
proof -
  have i: "nat (rfind slash (h @ slash # t) + 1) = Suc (length h)"
    unfolding rfind_last [OF assms] by linarith
  have tk: "take (Suc (length h)) (h @ slash # t) = h @ [slash]"
    by simp
  have dr: "drop (Suc (length h)) (h @ slash # t) = t"
    by simp
  show ?thesis
    unfolding os_path_split_def i Let_def tk dr by simp
qed

lemma last_slash_decomposition:
  "slash \<in> set p \<Longrightarrow> \<exists>h t. p = h @ slash # t \<and> slash \<notin> set t"
  by (metis split_list_last)

lemma placeholder_plain: "slash \<notin> set ''%s''" "''%s'' \<noteq> []"
  by (simp_all add: slash_def)

lemma str_in_replicate_slash: "\<not> str_in ''%s'' (replicate k slash)"
proof (induction k)
  case 0
  then show ?case by simp
next
  case (Suc k)
  have "replicate (Suc k) slash = replicate k slash @ [slash]"
    by (simp add: replicate_append_same)
  then show ?case using Suc str_in_snoc [OF placeholder_plain] by simp
qed

lemma str_in_dir_part:
  assumes "slash \<notin> set t"
  shows "str_in ''%s'' (fst (os_path_split (h @ slash # t))) = str_in ''%s'' h"
proof (cases "h @ [slash] = replicate (Suc (length h)) slash")
  case True
  then have "\<not> str_in ''%s'' (h @ [slash])"
    using str_in_replicate_slash [of "Suc (length h)"] by simp
  then have "\<not> str_in ''%s'' h"
    using str_in_snoc [OF placeholder_plain] by simp
  with True show ?thesis
    using str_in_replicate_slash [of "Suc (length h)"]
    by (simp add: os_path_split_last_slash [OF assms])
next
  case False
  then show ?thesis
    using str_in_rstrip [OF placeholder_plain, of "h @ [slash]"] str_in_snoc [OF placeholder_plain]
    by (simp add: os_path_split_last_slash [OF assms])
qed

text \<open>
  C2, as stated, fails: line 78 looks for the placeholder in the directory part that
  \<^verbatim>\<open>os.path.split\<close> gives, not in the whole pattern. The pattern
  \<^verbatim>\<open>res/%s.strings\<close> contains the placeholder and is not sent to the templated
  branch: in English mode the rule lists the directory \<^verbatim>\<open>/repo/res\<close>, which fails
  here because the directory does not exist, where the templated branch would return a
  path without looking at the file system.
\<close>

theorem C2_counterexample:
  "str_in ''%s'' (item0 (''res/%s.strings'', ''_'', Some ''en''))
   \<and> \<not> is_templated (''res/%s.strings'', ''_'', Some ''en'')
   \<and> get (scenario_fs ''/repo/proj'' [])
        (ResourceInfo_init ''/repo''
           \<lparr>resources = [(''res/%s.strings'', ''_'', Some ''en'')], langs = [(''fr'', None)]\<rparr>)
        True = Inl (OSError ENOENT)"
  by code_simp

text \<open>
  C2, amended. A rule is sent to the templated branch exactly when the placeholder
  \<^verbatim>\<open>%s\<close> occurs in its path pattern before some later slash, that is, in the
  directory part; every other rule, also one with the placeholder in the final file
  name only, is sent to the wildcard branch.
\<close>

theorem C2_templated_iff_placeholder_in_directory:
  "is_templated item \<longleftrightarrow> (\<exists>a b c. item0 item = a @ ''%s'' @ b @ [slash] @ c)"
proof (cases "slash \<in> set (item0 item)")
  case False
  then have "\<not> is_templated item"
    by (simp add: is_templated_def os_path_split_no_slash)
  moreover have "\<not> (\<exists>a b c. item0 item = a @ ''%s'' @ b @ [slash] @ c)"
    using False by auto
  ultimately show ?thesis by blast
next
  case True
  then obtain h t where p: "item0 item = h @ slash # t" and t: "slash \<notin> set t"
    using last_slash_decomposition by blast
  have tm: "is_templated item = str_in ''%s'' h"
    unfolding is_templated_def p using str_in_dir_part [OF t] by simp
  show ?thesis
  proof
    assume "is_templated item"
    with tm obtain a b where "h = a @ ''%s'' @ b" unfolding str_in_iff by blast
    with p have "item0 item = a @ ''%s'' @ b @ [slash] @ t" by simp
    then show "\<exists>a b c. item0 item = a @ ''%s'' @ b @ [slash] @ c" by blast
  next
    assume "\<exists>a b c. item0 item = a @ ''%s'' @ b @ [slash] @ c"
    then obtain a b c where "item0 item = a @ ''%s'' @ b @ [slash] @ c" by blast
    with p have e: "h @ slash # t = (a @ ''%s'' @ b) @ slash # c" by simp
    then obtain us where
      "h = (a @ ''%s'' @ b) @ us \<and> us @ slash # t = slash # c
       \<or> h @ us = a @ ''%s'' @ b \<and> slash # t = us @ slash # c"
      unfolding append_eq_append_conv2 by blast
    then have "\<exists>us. h = (a @ ''%s'' @ b) @ us"
    proof
      assume "h = (a @ ''%s'' @ b) @ us \<and> us @ slash # t = slash # c"
      then show ?thesis by blast
    next
      assume r: "h @ us = a @ ''%s'' @ b \<and> slash # t = us @ slash # c"
      show ?thesis
      proof (cases us)
        case Nil
        with r show ?thesis by simp
      next
        case (Cons u us')
        with r have "t = us' @ slash # c" by simp
        with t show ?thesis by simp
      qed
    qed
    then obtain us where "h = a @ ''%s'' @ (b @ us)" by auto
    then have "str_in ''%s'' h" unfolding str_in_iff by blast
    with tm show "is_templated item" by simp
  qed
qed

subsection \<open>English files of a wildcard rule\<close>

text \<open>
  Where the separator and the excluded codes contain no dot (and none of the other
  operators of regular expressions, which the model does not cover), and no file name
  contains a newline, the regular expression is the test for a suffix: the English files
  are the files of the directory that match the pattern and whose name without
  extension does not end with the separator followed by an excluded code.
\<close>

lemma re_atoms_plain:
  "re_atoms s = Inr as \<Longrightarrow> dot \<notin> set s \<Longrightarrow> as = map RLit s"
  by (induction s arbitrary: as) (auto split: if_splits sum.splits)

lemma re_atoms_all_plain:
  "re_atoms_all ss = Inr alts \<Longrightarrow> \<forall>s \<in> set ss. dot \<notin> set s \<Longrightarrow> alts = map (map RLit) ss"
  by (induction ss arbitrary: alts) (auto split: sum.splits dest: re_atoms_plain)

lemma atoms_match_literal:
  "atoms_match (map RLit s) x = (if prefix s x then Some (drop (length s) x) else None)"
proof (induction s arbitrary: x)
  case Nil
  then show ?case by simp
next
  case (Cons c s)
  then show ?case by (cases x) auto
qed

lemma atoms_match_literal_Some:
  "atoms_match (map RLit s) x = Some y \<longleftrightarrow> x = s @ y"
  by (auto simp: atoms_match_literal prefix_def)

lemma re_tail_matches_plain:
  assumes "re_compile_foreign sep excluded = Inr re" "dot \<notin> set sep"
    "\<forall>code \<in> set excluded. dot \<notin> set code"
  shows "re_tail_matches re r \<longleftrightarrow>
    (\<exists>code \<in> set excluded. r = sep @ code \<or> r = sep @ code @ [newline])"
proof -
  from assms obtain pre alts where
    "re_atoms sep = Inr pre" "re_atoms_all excluded = Inr alts"
    and re: "re = \<lparr>re_prefix = pre, re_alternatives = alts\<rparr>"
    by (auto simp: re_compile_foreign_def split: sum.splits)
  with assms have pa: "pre = map RLit sep" "alts = map (map RLit) excluded"
    using re_atoms_plain re_atoms_all_plain by blast+
  have "re_tail_matches re r \<longleftrightarrow>
      (\<exists>r1. atoms_match (map RLit sep) r = Some r1
         \<and> (\<exists>code \<in> set excluded. \<exists>r2. atoms_match (map RLit code) r1 = Some r2
              \<and> at_dollar r2))"
    unfolding re pa re_tail_matches_def
    by (auto simp: list_ex_iff split: option.splits)
  also have "\<dots> \<longleftrightarrow> (\<exists>code \<in> set excluded. r = sep @ code \<or> r = sep @ code @ [newline])"
    unfolding atoms_match_literal_Some at_dollar_def by auto
  finally show ?thesis .
qed

lemma re_match_iff:
  "re_match re s \<longleftrightarrow> (\<exists>a r. s = a @ r \<and> newline \<notin> set a \<and> re_tail_matches re r)"
proof (induction s)
  case Nil
  then show ?case by simp
next
  case (Cons c s)
  show ?case
  proof
    assume "re_match re (c # s)"
    then consider "re_tail_matches re (c # s)" | "c \<noteq> newline" "re_match re s" by auto
    then show "\<exists>a r. c # s = a @ r \<and> newline \<notin> set a \<and> re_tail_matches re r"
    proof cases
      case 1
      then have "c # s = [] @ (c # s) \<and> newline \<notin> set [] \<and> re_tail_matches re (c # s)"
        by simp
      then show ?thesis by blast
    next
      case 2
      with Cons obtain a r where "s = a @ r" "newline \<notin> set a" "re_tail_matches re r"
        by blast
      with 2 have "c # s = (c # a) @ r \<and> newline \<notin> set (c # a) \<and> re_tail_matches re r"
        by simp
      then show ?thesis by blast
    qed
  next
    assume "\<exists>a r. c # s = a @ r \<and> newline \<notin> set a \<and> re_tail_matches re r"
    then obtain a r where e: "c # s = a @ r" "newline \<notin> set a" "re_tail_matches re r"
      by blast
    show "re_match re (c # s)"
    proof (cases a)
      case Nil
      with e have "re_tail_matches re (c # s)" by simp
      then show ?thesis by simp
    next
      case (Cons x a')
      with e have "s = a' @ r" "newline \<notin> set a'" "c \<noteq> newline" by auto
      with e(3) Cons.IH have "re_match re s" by blast
      with \<open>c \<noteq> newline\<close> show ?thesis by simp
    qed
  qed
qed

lemma foreign_match_is_suffix_test:
  assumes "re_compile_foreign sep excluded = Inr re" "dot \<notin> set sep"
    "\<forall>code \<in> set excluded. dot \<notin> set code" "newline \<notin> set name"
  shows "re_match re name \<longleftrightarrow> (\<exists>code \<in> set excluded. suffix (sep @ code) name)"
proof
  assume "re_match re name"
  then obtain a r where n: "name = a @ r" and "re_tail_matches re r"
    unfolding re_match_iff by blast
  then obtain code where c: "code \<in> set excluded"
    and "r = sep @ code \<or> r = sep @ code @ [newline]"
    unfolding re_tail_matches_plain [OF assms(1,2,3)] by blast
  moreover have "r \<noteq> sep @ code @ [newline]"
    using assms(4) n by auto
  ultimately have "name = a @ sep @ code" using n by simp
  then have "suffix (sep @ code) name" by (simp add: suffix_def)
  with c show "\<exists>code \<in> set excluded. suffix (sep @ code) name" by blast
next
  assume "\<exists>code \<in> set excluded. suffix (sep @ code) name"
  then obtain code a where c: "code \<in> set excluded" and n: "name = a @ sep @ code"
    by (auto simp: suffix_def)
  then have "re_tail_matches re (sep @ code)"
    unfolding re_tail_matches_plain [OF assms(1,2,3)] by blast
  moreover have "newline \<notin> set a" using assms(4) n by simp
  ultimately show "re_match re name"
    unfolding re_match_iff using n by blast
qed

lemma english_files_loop_filter:
  assumes "CHR ''['' \<notin> set filespec"
  shows "english_files_loop re path filespec names english_files =
    Inr (english_files @ map (os_path_join path)
          (filter (\<lambda>filename. glob_match filespec filename
                     \<and> \<not> re_match re (fst (os_path_splitext filename))) names))"
  using assms by (induction names arbitrary: english_files) (auto simp: fnmatch_def)

lemma english_files_without_operators:
  assumes "get_english_files fs ri spec sep = Inr english_files"
    and "os_path_split spec = (path, filespec)"
    and "dot \<notin> set sep" "\<forall>code \<in> set (lang_exclude ri). dot \<notin> set code"
    and "os_listdir fs path = Inr names"
    and "\<forall>filename \<in> set names. newline \<notin> set filename"
    and "CHR ''['' \<notin> set filespec"
  shows "english_files = map (os_path_join path)
    (filter (\<lambda>filename. glob_match filespec filename
        \<and> \<not> (\<exists>code \<in> set (lang_exclude ri).
              suffix (sep @ code) (fst (os_path_splitext filename)))) names)"
proof -
  from assms(1) obtain re where re: "re_compile_foreign sep (lang_exclude ri) = Inr re"
    by (auto simp: get_english_files_def split: sum.splits)
  have nl: "newline \<notin> set (fst (os_path_splitext filename))" if "filename \<in> set names"
    for filename
    using that assms(6) by (auto simp: os_path_splitext_def Let_def dest: in_set_takeD)
  have "filter (\<lambda>filename. glob_match filespec filename
        \<and> \<not> re_match re (fst (os_path_splitext filename))) names
      = filter (\<lambda>filename. glob_match filespec filename
        \<and> \<not> (\<exists>code \<in> set (lang_exclude ri).
              suffix (sep @ code) (fst (os_path_splitext filename)))) names"
    using foreign_match_is_suffix_test [OF re assms(3,4) nl]
    by (intro filter_cong) auto
  moreover have "english_files = map (os_path_join path)
      (filter (\<lambda>filename. glob_match filespec filename
        \<and> \<not> re_match re (fst (os_path_splitext filename))) names)"
    using assms(1,2,5) re
    by (simp add: get_english_files_def english_files_loop_filter [OF assms(7)])
  ultimately show ?thesis by simp
qed

text \<open>
  C3. The claim: a file that matches the pattern is English exactly when its name
  without extension does not end with the separator followed by an excluded code. Line
  127 puts the separator into the regular expression as it is, so the separator
  \<^verbatim>\<open>.\<close> stands for any character: with the language \<^verbatim>\<open>it\<close> the English file
  \<^verbatim>\<open>submit.json\<close> is taken for a translation (\<^verbatim>\<open>subm\<close>, any character, \<^verbatim>\<open>it\<close>)
  and English mode returns no file at all, although \<^verbatim>\<open>submit\<close> ends neither with
  \<^verbatim>\<open>.it\<close> nor with \<^verbatim>\<open>.pig_latin\<close>. Line 113 uses the same separator literally.
\<close>

theorem C3_dot_separator_drops_english_file:
  "get (scenario_fs ''/repo/i18n'' [''submit.json'', ''submit.it.json'']) dot_separator_info True
     = Inr ([], [], [])
   \<and> fnmatch ''submit.json'' ''*.json'' = Inr True
   \<and> fst (os_path_splitext ''submit.json'') = ''submit''
   \<and> lang_exclude dot_separator_info = [''pig_latin'', ''it'']
   \<and> \<not> suffix (''.'' @ ''pig_latin'') ''submit''
   \<and> \<not> suffix (''.'' @ ''it'') ''submit''"
  by code_simp

subsection \<open>The upload format of every file name\<close>

text \<open>
  The extension that \<^verbatim>\<open>os.path.splitext\<close> gives is empty or a dot followed by
  characters that are no dot. So \<^verbatim>\<open>_get_i18n_type\<close> raises IndexError for a name
  without an extension, returns the entry of the table for the seven extensions, and
  raises \<^verbatim>\<open>TransUpdateError\<close> for every other extension.
\<close>

lemma str_split_absent: "sep \<notin> set s \<Longrightarrow> str_split sep s = [s]"
  by (induction s) auto

lemma rfind_lower_bound: "- 1 \<le> rfind c s"
proof -
  have "length (takeWhile (\<lambda>x. x \<noteq> c) (rev s)) \<le> length s"
    using length_takeWhile_le [of "\<lambda>x. x \<noteq> c" "rev s"] by simp
  then show ?thesis by (simp add: rfind_def)
qed

lemma splitext_no_dot:
  assumes "dot \<notin> set p"
  shows "os_path_splitext p = (p, [])"
proof -
  have "\<not> rfind dot p > rfind slash p"
    using rfind_lower_bound [of slash p] rfind_absent [OF assms] by simp
  then show ?thesis by (simp add: os_path_splitext_def Let_def)
qed

lemma splitext_extension_shape:
  "snd (os_path_splitext p) = [] \<or> (\<exists>e. snd (os_path_splitext p) = dot # e \<and> dot \<notin> set e)"
proof (cases "dot \<in> set p")
  case False
  then show ?thesis by (simp add: splitext_no_dot)
next
  case True
  then obtain h t where p: "p = h @ dot # t" and t: "dot \<notin> set t"
    by (metis split_list_last)
  have "nat (rfind dot p) = length h"
    unfolding p rfind_last [OF t] by simp
  then have "drop (nat (rfind dot p)) p = dot # t"
    unfolding p by simp
  with t show ?thesis
    by (auto simp: os_path_splitext_def Let_def)
qed

lemma get_i18n_type_cases:
  "get_i18n_type full_filename =
     (if snd (os_path_splitext full_filename) = [] then Inl IndexError
      else (case map_of transifex_i18n_type (tl (snd (os_path_splitext full_filename))) of
              Some t \<Rightarrow> Inr t
            | None \<Rightarrow>
                Inl (TransUpdateError
                  (''ERROR: unrecognised extension in filename: '' @ [quote] @ full_filename
                   @ [quote]))))"
proof (cases "snd (os_path_splitext full_filename) = []")
  case True
  then show ?thesis by (simp add: get_i18n_type_def)
next
  case False
  with splitext_extension_shape [of full_filename] obtain e where
    e: "snd (os_path_splitext full_filename) = dot # e" "dot \<notin> set e"
    by blast
  then have "str_split dot (snd (os_path_splitext full_filename)) = [[], e]"
    by (simp add: str_split_absent)
  with e show ?thesis by (simp add: get_i18n_type_def)
qed

lemma get_i18n_type_recognised:
  "map (\<lambda>ext. get_i18n_type (''/repo/proj/x.'' @ ext))
     [''po'', ''properties'', ''html'', ''strings'', ''xml'', ''json'', ''ts'']
   = map Inr [''PO'', ''UNICODEPROPERTIES'', ''HTML'', ''STRINGS'', ''ANDROID'', ''CHROME'', ''QT'']"
  by code_simp

end
